theory Spec2Isabelle
  imports
    Complex_Main
    "HOL-Library.AList"
    "HOL-Library.Char_ord"
    "HOL-Library.List_Lexorder"
begin

section \<open>Python values shared by the two modules\<close>

text \<open>
  Exceptions are values. \<open>Exception msg\<close> is Python's \<^verbatim>\<open>raise Exception(msg)\<close>; the
  others are the built-in exceptions that the modelled statements can raise.
\<close>

datatype error =
    Exception string
  | IndexError
  | KeyError string
  | TypeError
  | ValueError
  | FileNotFoundError string

text \<open>Sequencing of steps that may raise: the first exception ends the sequence.\<close>

definition bind_err :: "error + 'a \<Rightarrow> ('a \<Rightarrow> error + 'b) \<Rightarrow> error + 'b" where
  "bind_err m k = (case m of Inl e \<Rightarrow> Inl e | Inr v \<Rightarrow> k v)"

text \<open>Reading and writing a list at an index taken from a \<^verbatim>\<open>range\<close>.\<close>

definition item :: "'a list \<Rightarrow> nat \<Rightarrow> error + 'a" where
  "item xs i = (if i < length xs then Inr (xs ! i) else Inl IndexError)"

definition set_item :: "'a list \<Rightarrow> nat \<Rightarrow> 'a \<Rightarrow> error + 'a list" where
  "set_item xs i v = (if i < length xs then Inr (xs[i := v]) else Inl IndexError)"

text \<open>Python's \<^verbatim>\<open>str(i)\<close> on a non-negative integer: its decimal digits.\<close>

definition digit :: "nat \<Rightarrow> char" where
  "digit d = ''0123456789'' ! d"

fun str :: "nat \<Rightarrow> string" where
  "str n = (if n < 10 then [digit n] else str (n div 10) @ [digit (n mod 10)])"

declare str.simps [simp del]


section \<open>Coherence metrics (evaluation\_metrics/coherence\_metrics.py)\<close>

text \<open>
  Every metric object keeps \<^verbatim>\<open>self.topics = model_output[0]\<close> (a list of topics, each a
  list of words) and \<^verbatim>\<open>self.topk\<close>. What gensim, numpy, scipy and sklearn compute behind
  the guard is a parameter of each \<open>score\<close>; where a library call can raise, the
  parameter can. The statements of the source that can raise by themselves
  (\<^verbatim>\<open>self.topics[0]\<close>, \<^verbatim>\<open>topic[0]\<close>) are written out.
\<close>

record coherence =
  topics :: "string list list"
  topk :: int

text \<open>
  \<^verbatim>\<open>for topic in self.topics\<close> with a body that gives one value per topic: the first
  exception ends the loop.
\<close>

primrec each_topic ::
  "(string list \<Rightarrow> error + real) \<Rightarrow> string list list \<Rightarrow> error + real list" where
  "each_topic body [] = Inr []"
| "each_topic body (topic # rest) =
     bind_err (body topic) (\<lambda>c. bind_err (each_topic body rest) (\<lambda>cs. Inr (c # cs)))"

text \<open>
  \<^verbatim>\<open>Coherence.score\<close>: behind the guard, gensim's \<^verbatim>\<open>CoherenceModel(...).get_coherence()\<close> on
  the topics with \<^verbatim>\<open>topn=self.topk\<close>.
\<close>

definition Coherence_score ::
  "(string list list \<Rightarrow> int \<Rightarrow> error + real) \<Rightarrow> coherence \<Rightarrow> error + real" where
  "Coherence_score get_coherence self =
     (case topics self of
        [] \<Rightarrow> Inl IndexError
      | t # _ \<Rightarrow>
          if topk self > int (length t)
          then Inl (Exception ''Words in topics are less than topk'')
          else get_coherence (topics self) (topk self))"

text \<open>
  \<^verbatim>\<open>Coherence_word_embeddings.score\<close>: behind the guard, every topic with
  \<^verbatim>\<open>len(topic) > 0\<close> gives the numpy mean of the similarities of the word pairs of
  \<^verbatim>\<open>topic[0:self.topk]\<close> (\<open>topic_similarity\<close>), and the score is the numpy mean of these
  (\<open>mean\<close>). An empty topic is skipped.
\<close>

definition Coherence_word_embeddings_score ::
  "(int \<Rightarrow> string list \<Rightarrow> real) \<Rightarrow> (real list \<Rightarrow> real) \<Rightarrow> coherence \<Rightarrow> error + real" where
  "Coherence_word_embeddings_score topic_similarity mean self =
     (case topics self of
        [] \<Rightarrow> Inl IndexError
      | t # _ \<Rightarrow>
          if topk self > int (length t)
          then Inl (Exception ''Words in topics are less than topk'')
          else Inr (mean (map (topic_similarity (topk self))
                            (filter (\<lambda>topic. length topic > 0) (topics self)))))"

text \<open>
  \<^verbatim>\<open>Coherence_word_embeddings_pairwise.score\<close>: behind the guard, every topic gives the
  sum of sklearn's pairwise cosine distances of the embeddings of \<^verbatim>\<open>topic[0:self.topk]\<close>
  over \<^verbatim>\<open>2*topk*(topk-1)\<close> (\<open>pairwise_topic\<close>, which may raise); the score is the sum of
  these over the number of topics (\<open>average\<close>).
\<close>

definition Coherence_word_embeddings_pairwise_score ::
  "(int \<Rightarrow> string list \<Rightarrow> error + real) \<Rightarrow> (real list \<Rightarrow> real) \<Rightarrow> coherence
     \<Rightarrow> error + real" where
  "Coherence_word_embeddings_pairwise_score pairwise_topic average self =
     (case topics self of
        [] \<Rightarrow> Inl IndexError
      | t # _ \<Rightarrow>
          if topk self > int (length t)
          then Inl (Exception ''Words in topics are less than topk'')
          else bind_err (each_topic (pairwise_topic (topk self)) (topics self))
                 (\<lambda>cs. Inr (average cs)))"

text \<open>
  \<^verbatim>\<open>Coherence_word_embeddings_centroid.score\<close>: behind the guard, the body of the loop
  starts with \<^verbatim>\<open>t = [0] * len(self.wv.__getitem__(topic[0]))\<close>: \<^verbatim>\<open>topic[0]\<close> raises
  \<^verbatim>\<open>IndexError\<close> on an empty topic, and the lookup \<open>getitem\<close> may raise; then the
  distances of the words to the centroid are added up and divided by \<^verbatim>\<open>self.topk\<close>
  (\<open>centroid_topic\<close>, which may raise); the score is the sum over the number of topics
  (\<open>average\<close>).
\<close>

definition centroid_body ::
  "(string \<Rightarrow> error + real list) \<Rightarrow> (int \<Rightarrow> real list \<Rightarrow> string list \<Rightarrow> error + real)
     \<Rightarrow> int \<Rightarrow> string list \<Rightarrow> error + real" where
  "centroid_body getitem centroid_topic k topic =
     (case topic of
        [] \<Rightarrow> Inl IndexError
      | w # _ \<Rightarrow> bind_err (getitem w) (\<lambda>v. centroid_topic k v topic))"

definition Coherence_word_embeddings_centroid_score ::
  "(string \<Rightarrow> error + real list) \<Rightarrow> (int \<Rightarrow> real list \<Rightarrow> string list \<Rightarrow> error + real)
     \<Rightarrow> (real list \<Rightarrow> real) \<Rightarrow> coherence \<Rightarrow> error + real" where
  "Coherence_word_embeddings_centroid_score getitem centroid_topic average self =
     (case topics self of
        [] \<Rightarrow> Inl IndexError
      | t # _ \<Rightarrow>
          if topk self > int (length t)
          then Inl (Exception ''Words in topics are less than topk'')
          else bind_err
                 (each_topic (centroid_body getitem centroid_topic (topk self)) (topics self))
                 (\<lambda>cs. Inr (average cs)))"


section \<open>The objective function (Optimizer.\_objective\_function)\<close>

text \<open>
  A hyperparameter value is a number or a category; the minimizers hand the objective a
  positional list of them.
\<close>

datatype hval = Real_val real | Int_val int | Cat_val string

type_synonym point = "hval list"

text \<open>The model output is opaque but for its topics.\<close>

type_synonym model_output = "string list list"

text \<open>
  A metric collaborator: the name of its class and its \<open>score\<close>, which may raise.
\<close>

record metric =
  class_name :: string
  score :: "model_output \<Rightarrow> error + real"

text \<open>
  \<^verbatim>\<open>metrics_values\<close> is a Python dict: an association list in insertion order, written
  with \<open>AList.update\<close> (replace in place, else append).
\<close>

type_synonym metrics_values = "(string \<times> real) list"

type_synonym iteration = "point \<times> metrics_values"

text \<open>The three minimizers that the configuration can name.\<close>

datatype minimizer = dummy_minimize | forest_minimize | gp_minimize

text \<open>A dimension of the search space.\<close>

datatype dimension = Real_dim real real | Integer_dim int int | Categorical_dim "hval list"

text \<open>
  A value of the configuration dictionary \<^verbatim>\<open>default_parameters\<close>. \<open>PyObject\<close> stands for
  the values that only the library reads (the kernel, for one).
\<close>

datatype pyval =
    PyInt int
  | PyBool bool
  | PyStr string
  | PyFloat real
  | PyNone
  | PyMinimizer minimizer
  | PyX0 "point list option list"
  | PyY0 "real list option list"
  | PyMetrics "metric list"
  | PyObject string

type_synonym dict = "string \<rightharpoonup> pyval"

text \<open>
  The optimizer object: what the constructor stores (the model with its dataset as
  \<open>train_model\<close>, the metric, the search space, a dict in insertion order, and the
  optimization parameters) and what \<^verbatim>\<open>optimize\<close> sets before it calls the driver
  (\<open>hyperparameters\<close>, \<open>extra_metrics\<close>, \<open>optimization_type\<close>).
\<close>

record optimizer =
  train_model :: "(string \<rightharpoonup> hval) \<Rightarrow> error + model_output"
  metric :: metric
  search_space :: "(string \<times> dimension) list"
  optimization_parameters :: dict
  hyperparameters :: "string list"
  extra_metrics :: "metric list"
  optimization_type :: string

text \<open>
  \<^verbatim>\<open>for i in range(len(self.hyperparameters)): params[self.hyperparameters[i]] = hyperparameters[i]\<close>
\<close>

primrec retrieve_labels ::
  "string list \<Rightarrow> point \<Rightarrow> nat list \<Rightarrow> (string \<rightharpoonup> hval) \<Rightarrow> error + (string \<rightharpoonup> hval)" where
  "retrieve_labels names hp [] params = Inr params"
| "retrieve_labels names hp (i # is) params =
     (if i < length hp
      then retrieve_labels names hp is (params(names ! i \<mapsto> hp ! i))
      else Inl IndexError)"

text \<open>Decimal rendering is injective: different counters give different names.\<close>

lemma digit_inj: "a < 10 \<Longrightarrow> b < 10 \<Longrightarrow> digit a = digit b \<Longrightarrow> a = b"
proof -
  have d: "distinct ''0123456789''" by simp
  assume "a < 10" "b < 10" "digit a = digit b"
  then show ?thesis using d unfolding digit_def
    by (simp add: nth_eq_iff_index_eq)
qed

lemma str_nonempty: "str n \<noteq> []"
  by (subst str.simps) simp

lemma str_last: "last (str n) = digit (n mod 10)"
  by (subst str.simps) simp

lemma str_butlast: "butlast (str n) = (if n < 10 then [] else str (n div 10))"
  by (subst str.simps) simp

lemma str_inj: "str a = str b \<Longrightarrow> a = b"
proof (induction a arbitrary: b rule: less_induct)
  case (less a)
  have "digit (a mod 10) = digit (b mod 10)"
    using less.prems str_last by metis
  then have m: "a mod 10 = b mod 10" by (intro digit_inj) simp_all
  have bl: "butlast (str a) = butlast (str b)" using less.prems by simp
  show ?case
  proof (cases "a < 10")
    case True
    then have "b < 10"
      using bl str_nonempty [of "b div 10"] by (auto simp add: str_butlast split: if_splits)
    with True m show ?thesis by simp
  next
    case False
    then have "\<not> b < 10"
      using bl str_nonempty [of "a div 10"] by (auto simp add: str_butlast split: if_splits)
    with False bl have "str (a div 10) = str (b div 10)" by (simp add: str_butlast)
    moreover have "a div 10 < a" using False by simp
    ultimately have "a div 10 = b div 10" using less.IH by blast
    with m show ?thesis by (metis div_mult_mod_eq)
  qed
qed

lemma finite_suffixed_names:
  "finite {j. base @ '' '' @ str j \<in> fst ` set (mv :: (string \<times> 'v) list)}"
proof -
  have "inj (\<lambda>j. base @ '' '' @ str j)"
    by (auto simp: inj_def dest: str_inj)
  then have "finite ((\<lambda>j. base @ '' '' @ str j) -` (fst ` set mv))"
    by (intro finite_vimageI) simp_all
  then show ?thesis by (simp add: vimage_def)
qed

lemma suffixed_names_split:
  fixes K :: "string set"
  shows "{j. i < j \<and> base @ '' '' @ str j \<in> K} = {j. i + 1 < j \<and> base @ '' '' @ str j \<in> K} \<union>
      (if base @ '' '' @ str (i + 1) \<in> K then {i + 1} else {})"
proof (intro equalityI subsetI)
  fix j
  assume "j \<in> {j. i < j \<and> base @ '' '' @ str j \<in> K}"
  then have a: "i < j" and b: "base @ '' '' @ str j \<in> K" by simp_all
  from a consider "i + 1 < j" | "j = i + 1" by linarith
  then show "j \<in> {j. i + 1 < j \<and> base @ '' '' @ str j \<in> K} \<union>
      (if base @ '' '' @ str (i + 1) \<in> K then {i + 1} else {})"
  proof cases
    case 1
    with b show ?thesis by simp
  next
    case 2
    with b show ?thesis by simp
  qed
next
  fix j
  assume "j \<in> {j. i + 1 < j \<and> base @ '' '' @ str j \<in> K} \<union>
      (if base @ '' '' @ str (i + 1) \<in> K then {i + 1} else {})"
  then show "j \<in> {j. i < j \<and> base @ '' '' @ str j \<in> K}"
    by (auto split: if_splits)
qed

lemma suffixed_names_card:
  fixes K :: "string set"
  assumes fin: "finite {j. i < j \<and> base @ '' '' @ str j \<in> K}"
  shows "card {j. i < j \<and> base @ '' '' @ str j \<in> K} = card {j. i + 1 < j \<and> base @ '' '' @ str j \<in> K}
      + (if base @ '' '' @ str (i + 1) \<in> K then 1 else 0)"
proof (cases "base @ '' '' @ str (i + 1) \<in> K")
  case True
  have sub: "{j. i + 1 < j \<and> base @ '' '' @ str j \<in> K} \<subseteq> {j. i < j \<and> base @ '' '' @ str j \<in> K}" by auto
  have f1: "finite {j. i + 1 < j \<and> base @ '' '' @ str j \<in> K}" using fin sub by (rule rev_finite_subset)
  have "{j. i < j \<and> base @ '' '' @ str j \<in> K} = insert (i + 1) {j. i + 1 < j \<and> base @ '' '' @ str j \<in> K}"
    using suffixed_names_split [of i base K] True by simp
  then have "card {j. i < j \<and> base @ '' '' @ str j \<in> K} = card (insert (i + 1) {j. i + 1 < j \<and> base @ '' '' @ str j \<in> K})"
    by simp
  also have "\<dots> = Suc (card {j. i + 1 < j \<and> base @ '' '' @ str j \<in> K})"
    using f1 by (subst card_insert_disjoint) simp_all
  finally show ?thesis using True by simp
next
  case False
  then show ?thesis using suffixed_names_split [of i base K] by simp
qed

text \<open>
  \<^verbatim>\<open>while name in metrics_values: i += 1; name = extra_metric_name + " " + str(i)\<close>.
  The loop stops because the dict is finite and the candidate names are pairwise
  different.
\<close>

function name_loop :: "string \<Rightarrow> metrics_values \<Rightarrow> nat \<Rightarrow> string \<Rightarrow> string" where
  "name_loop extra_metric_name metrics_values i name =
     (if name \<in> fst ` set metrics_values
      then name_loop extra_metric_name metrics_values (i + 1)
             (extra_metric_name @ '' '' @ str (i + 1))
      else name)"
  by pat_completeness auto
termination
proof (relation "measure (\<lambda>(base, mv, i, name).
         card {j. i < j \<and> base @ '' '' @ str j \<in> fst ` set mv}
         + (if name \<in> fst ` set mv then 1 else 0))")
  show "wf (measure (\<lambda>(base, mv, i, name).
         card {j. i < j \<and> base @ '' '' @ str j \<in> fst ` set mv}
         + (if name \<in> fst ` set mv then 1 else 0)))"
    by simp
next
  fix extra_metric_name :: string and metrics_values :: metrics_values
    and i :: nat and name :: string
  assume inK: "name \<in> fst ` set metrics_values"
  have "finite {j. i < j \<and> extra_metric_name @ '' '' @ str j \<in> fst ` set metrics_values}"
    using finite_suffixed_names [of extra_metric_name metrics_values] by simp
  then have "card {j. i < j \<and> extra_metric_name @ '' '' @ str j \<in> fst ` set metrics_values}
      = card {j. i + 1 < j \<and> extra_metric_name @ '' '' @ str j \<in> fst ` set metrics_values}
        + (if extra_metric_name @ '' '' @ str (i + 1) \<in> fst ` set metrics_values
           then 1 else 0)"
    by (rule suffixed_names_card)
  with inK
  show "((extra_metric_name, metrics_values, i + 1, extra_metric_name @ '' '' @ str (i + 1)),
         (extra_metric_name, metrics_values, i, name))
        \<in> measure (\<lambda>(base, mv, i, name).
            card {j. i < j \<and> base @ '' '' @ str j \<in> fst ` set mv}
            + (if name \<in> fst ` set mv then 1 else 0))"
    by simp
qed

declare name_loop.simps [simp del]

text \<open>
  \<^verbatim>\<open>for extra_metric in self.extra_metrics\<close>: choose the key, score the model output, store
  the value under the key.
\<close>

primrec extra_loop ::
  "metric list \<Rightarrow> model_output \<Rightarrow> metrics_values \<Rightarrow> error + metrics_values" where
  "extra_loop [] model_output metrics_values = Inr metrics_values"
| "extra_loop (extra_metric # rest) model_output metrics_values =
     (let extra_metric_name = class_name extra_metric;
          name = (if extra_metric_name \<notin> fst ` set metrics_values
                  then extra_metric_name
                  else name_loop extra_metric_name metrics_values 2
                         (extra_metric_name @ '' 2''))
      in case score extra_metric model_output of
           Inl e \<Rightarrow> Inl e
         | Inr v \<Rightarrow> extra_loop rest model_output (AList.update name v metrics_values))"

text \<open>
  The objective function. \<open>its\<close> is \<^verbatim>\<open>self._iterations\<close> before the call; the result
  carries the value handed to the minimizer and the log after the call. An exception of a
  collaborator leaves the function before the append.
\<close>

definition objective_function ::
  "optimizer \<Rightarrow> point \<Rightarrow> iteration list \<Rightarrow> error + (real \<times> iteration list)" where
  "objective_function self hp its =
     (case retrieve_labels (hyperparameters self) hp
             [0 ..< length (hyperparameters self)] Map.empty of
        Inl e \<Rightarrow> Inl e
      | Inr params \<Rightarrow>
     (case train_model self params of
        Inl e \<Rightarrow> Inl e
      | Inr model_output \<Rightarrow>
     (case score (metric self) model_output of
        Inl e \<Rightarrow> Inl e
      | Inr result \<Rightarrow>
     (case extra_loop (extra_metrics self) model_output
             [(class_name (metric self), result)] of
        Inl e \<Rightarrow> Inl e
      | Inr metrics_values \<Rightarrow>
          Inr (if optimization_type self = ''Maximize'' then - result else result,
               its @ [(hp, metrics_values)])))))"

section \<open>The minimizers' contract (scikit-optimize)\<close>

text \<open>
  The three minimizers, the result object, the callbacks and \<^verbatim>\<open>dump\<close>/\<^verbatim>\<open>load\<close> belong to
  scikit-optimize. The driver depends on this much of their contract: a run keeps the
  observations it is given (\<open>x0\<close>, \<open>y0\<close>) at the head of its history, then asks for a point,
  evaluates the objective and records the pair, \<open>n_calls\<close> times; after each record (and
  once after the given observations) every callback is called with the current result,
  and the run stops when one of them returns true. Which point is asked next is left
  open (\<open>ask\<close>).
\<close>

text \<open>
  \<^verbatim>\<open>OptimizeResult\<close>: all points and values in evaluation order, and the best pair.
  \<open>res_x\<close> and \<open>res_fun\<close> are its fields \<^verbatim>\<open>x\<close> and \<^verbatim>\<open>fun\<close>.
\<close>

record result =
  x_iters :: "point list"
  func_vals :: "real list"
  res_x :: point
  res_fun :: real

text \<open>\<^verbatim>\<open>numpy.argmin\<close>: the first index of the least value.\<close>

fun argmin :: "real list \<Rightarrow> nat" where
  "argmin [] = 0"
| "argmin [y] = 0"
| "argmin (y # z # ys) = (let k = argmin (z # ys) in if y \<le> (z # ys) ! k then 0 else Suc k)"

definition create_result :: "point list \<Rightarrow> real list \<Rightarrow> error + result" where
  "create_result Xi yi =
     (if yi = [] \<or> length Xi \<noteq> length yi then Inl ValueError
      else Inr \<lparr>x_iters = Xi, func_vals = yi,
                res_x = Xi ! argmin yi, res_fun = yi ! argmin yi\<rparr>)"

text \<open>
  Files are found by what their path names: absolute or relative to the working
  directory, and the components between the slashes, without the empty ones and
  without \<^verbatim>\<open>.\<close>.
\<close>

type_synonym path = "bool \<times> string list"

fun split_slash :: "string \<Rightarrow> string list" where
  "split_slash [] = [[]]"
| "split_slash (c # cs) =
     (if c = CHR ''/'' then [] # split_slash cs
      else (case split_slash cs of [] \<Rightarrow> [[c]] | w # ws \<Rightarrow> (c # w) # ws))"

definition resolve :: "string \<Rightarrow> path" where
  "resolve p = (take 1 p = ''/'', filter (\<lambda>w. w \<noteq> [] \<and> w \<noteq> ''.'') (split_slash p))"

text \<open>
  The files that hold pickled results, as a dict from what the path names to the
  content: \<^verbatim>\<open>dump\<close> replaces the content of an existing file.
\<close>

type_synonym files = "(path \<times> result) list"

definition dump :: "result \<Rightarrow> string \<Rightarrow> files \<Rightarrow> files" where
  "dump r p fs = AList.update (resolve p) r fs"

definition load :: "string \<Rightarrow> files \<Rightarrow> error + result" where
  "load p fs =
     (case map_of fs (resolve p) of None \<Rightarrow> Inl (FileNotFoundError p) | Some r \<Rightarrow> Inr r)"

text \<open>
  The two callbacks the driver builds: \<^verbatim>\<open>CheckpointSaver(path)\<close> dumps the current
  result; \<^verbatim>\<open>MyCustomEarlyStopper(n_stop, n_random_starts)\<close> (optimization/stopper.py)
  decides from the current result whether to stop.
\<close>

datatype callback = CheckpointSaver string | MyCustomEarlyStopper int int

text \<open>
  One invocation of a minimizer, by its arguments. For \<open>gp_minimize\<close> the invocation is
  \<^verbatim>\<open>opt = skopt_optimizer(..., n_random_starts, n_initial_points, ...)\<close>, then
  \<^verbatim>\<open>opt.tell(x0, y0)\<close> when both are given, then \<^verbatim>\<open>opt.run(f, n_calls)\<close>.
\<close>

record call =
  c_routine :: minimizer
  c_n_calls :: int
  c_n_random_starts :: "int option"
  c_n_initial_points :: "int option"
  c_x0 :: "point list option"
  c_y0 :: "real list option"
  c_callback :: "callback list"

text \<open>
  What the model leaves to the collaborators that are not in the two modules: the point
  a strategy asks for next, the early stopper's criterion, and
  \<^verbatim>\<open>tool.early_condition(result, early_step, n_random_starts)\<close>.
\<close>

record library =
  ask :: "call \<Rightarrow> point list \<Rightarrow> real list \<Rightarrow> point"
  early_stopper :: "int \<Rightarrow> int \<Rightarrow> result \<Rightarrow> bool"
  early_condition :: "result \<Rightarrow> int \<Rightarrow> int \<Rightarrow> bool"

type_synonym objective = "point \<Rightarrow> iteration list \<Rightarrow> error + (real \<times> iteration list)"

text \<open>
  The state the driver works on: the files, the iteration log that the objective
  appends to, the driver's variables \<^verbatim>\<open>res\<close>, \<^verbatim>\<open>checkpoint_saver\<close> (the list of callbacks,
  or the handle that \<^verbatim>\<open>tool.dump_BO\<close> returned) and \<^verbatim>\<open>early_stop_flag\<close>, and a record of
  every minimizer invocation: the trial, the checkpoint it was restored from (if any),
  and the arguments.
\<close>

record state =
  files :: files
  iterations :: "iteration list"
  res :: "result list"
  checkpoint_saver :: "callback option list"
  dump_handle :: "string list"
  early_stop_flag :: "bool list"
  calls :: "(nat \<times> result option \<times> call) list"

text \<open>\<^verbatim>\<open>eval_callbacks\<close>: every callback is called; the decisions are or-ed.\<close>

fun eval_callbacks :: "library \<Rightarrow> callback list \<Rightarrow> result \<Rightarrow> files \<Rightarrow> files \<times> bool" where
  "eval_callbacks L [] r fs = (fs, False)"
| "eval_callbacks L (CheckpointSaver p # cs) r fs = eval_callbacks L cs r (dump r p fs)"
| "eval_callbacks L (MyCustomEarlyStopper n_stop k # cs) r fs =
     (let (fs', stop) = eval_callbacks L cs r fs
      in (fs', early_stopper L n_stop k r \<or> stop))"

text \<open>\<^verbatim>\<open>y0 = list(map(func, x0))\<close>: the objective on each given point, in order.\<close>

primrec eval_points ::
  "objective \<Rightarrow> point list \<Rightarrow> iteration list \<Rightarrow> error + (real list \<times> iteration list)" where
  "eval_points f [] its = Inr ([], its)"
| "eval_points f (p # ps) its =
     (case f p its of
        Inl e \<Rightarrow> Inl e
      | Inr (y, its1) \<Rightarrow>
          (case eval_points f ps its1 of
             Inl e \<Rightarrow> Inl e
           | Inr (ys, its2) \<Rightarrow> Inr (y # ys, its2)))"

text \<open>
  The evaluation loop, \<^verbatim>\<open>for n in range(n_calls)\<close>: ask, evaluate, tell, call the
  callbacks, stop when one says so. \<open>Xi\<close> and \<open>yi\<close> are the observations so far.
\<close>

primrec minimize_loop ::
  "library \<Rightarrow> objective \<Rightarrow> call \<Rightarrow> nat \<Rightarrow> point list \<Rightarrow> real list \<Rightarrow> state
     \<Rightarrow> error + (result \<times> state)" where
  "minimize_loop L f c 0 Xi yi st =
     (case create_result Xi yi of Inl e \<Rightarrow> Inl e | Inr r \<Rightarrow> Inr (r, st))"
| "minimize_loop L f c (Suc n) Xi yi st =
     (let next_x = ask L c Xi yi in
      case f next_x (iterations st) of
        Inl e \<Rightarrow> Inl e
      | Inr (next_y, its) \<Rightarrow>
          (case create_result (Xi @ [next_x]) (yi @ [next_y]) of
             Inl e \<Rightarrow> Inl e
           | Inr r \<Rightarrow>
               (let (fs, stop) = eval_callbacks L (c_callback c) r (files st);
                    st' = st\<lparr>iterations := its, files := fs\<rparr>
                in if stop then Inr (r, st')
                   else minimize_loop L f c n (Xi @ [next_x]) (yi @ [next_y]) st')))"

text \<open>
  \<^verbatim>\<open>base_minimize\<close>, behind \<^verbatim>\<open>dummy_minimize\<close> and \<^verbatim>\<open>forest_minimize\<close>: the argument
  checks, the given observations (evaluated first when only \<open>x0\<close> is given, which counts
  against \<open>n_calls\<close>), then the loop.
\<close>

definition base_minimize ::
  "library \<Rightarrow> objective \<Rightarrow> call \<Rightarrow> int \<Rightarrow> state \<Rightarrow> error + (result \<times> state)" where
  "base_minimize L f c n_initial st =
     (let xs = (case c_x0 c of None \<Rightarrow> [] | Some xs \<Rightarrow> xs);
          no_y0 = (case c_y0 c of None \<Rightarrow> True | Some ys \<Rightarrow> ys = []);
          required_calls = n_initial + (if no_y0 then int (length xs) else 0)
      in if n_initial \<le> 0 \<and> xs = [] then Inl ValueError
         else if c_n_calls c < required_calls then Inl ValueError
         else if xs = [] then minimize_loop L f c (nat (c_n_calls c)) [] [] st
         else
           (case (case c_y0 c of
                    None \<Rightarrow>
                      (case eval_points f xs (iterations st) of
                         Inl e \<Rightarrow> Inl e
                       | Inr (ys, its) \<Rightarrow>
                           Inr (ys, c_n_calls c - int (length ys), st\<lparr>iterations := its\<rparr>))
                  | Some ys \<Rightarrow> Inr (ys, c_n_calls c, st)) of
              Inl e \<Rightarrow> Inl e
            | Inr (ys, n_calls, st1) \<Rightarrow>
                (case create_result xs ys of
                   Inl e \<Rightarrow> Inl e
                 | Inr r \<Rightarrow>
                     (let (fs, stop) = eval_callbacks L (c_callback c) r (files st1);
                          st2 = st1\<lparr>files := fs\<rparr>
                      in if stop then Inr (r, st2)
                         else minimize_loop L f c (nat n_calls) xs ys st2))))"

text \<open>
  \<^verbatim>\<open>dummy_minimize\<close> makes every call a random one; \<^verbatim>\<open>forest_minimize\<close> takes the count
  of random starts from its caller.
\<close>

definition run_dummy_minimize ::
  "library \<Rightarrow> objective \<Rightarrow> call \<Rightarrow> state \<Rightarrow> error + (result \<times> state)" where
  "run_dummy_minimize L f c st =
     base_minimize L f c
       (case (c_x0 c, c_y0 c) of
          (Some xs, None) \<Rightarrow> c_n_calls c - int (length xs)
        | _ \<Rightarrow> c_n_calls c) st"

definition run_forest_minimize ::
  "library \<Rightarrow> objective \<Rightarrow> call \<Rightarrow> state \<Rightarrow> error + (result \<times> state)" where
  "run_forest_minimize L f c st =
     (case c_n_random_starts c of
        None \<Rightarrow> Inl TypeError
      | Some k \<Rightarrow> base_minimize L f c k st)"

text \<open>
  The Gaussian-process path: a new optimizer, \<^verbatim>\<open>tell\<close> of the given observations, then
  \<^verbatim>\<open>run\<close>, which evaluates \<open>n_calls\<close> points and builds the result. There are no callbacks.
\<close>

definition run_gp_optimizer ::
  "library \<Rightarrow> objective \<Rightarrow> call \<Rightarrow> state \<Rightarrow> error + (result \<times> state)" where
  "run_gp_optimizer L f c st =
     (case c_n_initial_points c of
        None \<Rightarrow> Inl TypeError
      | Some k \<Rightarrow>
          if k < 0 then Inl ValueError
          else
            (case (c_x0 c, c_y0 c) of
               (Some xs, Some ys) \<Rightarrow>
                 if length xs \<noteq> length ys then Inl ValueError
                 else minimize_loop L f (c\<lparr>c_callback := []\<rparr>) (nat (c_n_calls c)) xs ys st
             | _ \<Rightarrow> minimize_loop L f (c\<lparr>c_callback := []\<rparr>) (nat (c_n_calls c)) [] [] st))"

text \<open>
  Every invocation goes through \<open>run_minimizer\<close>, which notes the trial, the checkpoint
  the trial was restored from (if any) and the arguments, and runs the routine.
\<close>

definition run_minimizer ::
  "library \<Rightarrow> objective \<Rightarrow> nat \<Rightarrow> result option \<Rightarrow> call \<Rightarrow> state
     \<Rightarrow> error + (result \<times> state)" where
  "run_minimizer L f i restored c st =
     (let st1 = st\<lparr>calls := calls st @ [(i, restored, c)]\<rparr>
      in case c_routine c of
           dummy_minimize \<Rightarrow> run_dummy_minimize L f c st1
         | forest_minimize \<Rightarrow> run_forest_minimize L f c st1
         | gp_minimize \<Rightarrow> run_gp_optimizer L f c st1)"


section \<open>The driver (Optimizer.Bayesian\_optimization)\<close>

text \<open>
  The arguments that decide what the driver does. The others (kernel, acquisition
  function, base estimator, random state, noise, alpha, kappa, xi, the plot and verbosity
  options, \<open>n_points\<close>, \<open>n_jobs\<close>, \<open>model_queue_size\<close>) are handed to the library or to the
  plotting helper unchanged. \<open>default_n_random_starts\<close> is not an argument: it is
  \<^verbatim>\<open>default_parameters["n_random_starts"]\<close>, which the driver reads from the module's
  dictionary whenever it builds an early stopper.
\<close>

record args =
  minimizer :: minimizer
  number_of_call :: int
  different_iteration :: int
  X0 :: "point list option list"
  Y0 :: "real list option list"
  n_random_starts :: int
  save :: bool
  save_step :: int
  save_name :: string
  early_stop :: bool
  early_step :: int
  default_n_random_starts :: int

text \<open>
  The driver prints a message and returns \<^verbatim>\<open>None\<close> on a configuration error, and
  returns the list \<^verbatim>\<open>res\<close> otherwise.
\<close>

datatype outcome = Config_error string | Results "result list"

text \<open>\<^verbatim>\<open>for i in range(different_iteration)\<close>, over the list of indices.\<close>

primrec for_range :: "nat list \<Rightarrow> (nat \<Rightarrow> state \<Rightarrow> error + state) \<Rightarrow> state \<Rightarrow> error + state" where
  "for_range [] body st = Inr st"
| "for_range (i # is) body st =
     (case body i st of Inl e \<Rightarrow> Inl e | Inr st' \<Rightarrow> for_range is body st')"

text \<open>
  \<^verbatim>\<open>while ( number_of_call_r > 0 )\<close>: the body gets the remaining budget, and the budget
  goes down by \<open>step\<close> after it. Nothing bounds the loop when \<open>step\<close> is not positive.
\<close>

partial_function (option) while_remaining ::
  "(int \<Rightarrow> state \<Rightarrow> error + state) \<Rightarrow> int \<Rightarrow> int \<Rightarrow> state \<Rightarrow> (error + state) option" where
  "while_remaining body step number_of_call_r st =
     (if number_of_call_r > 0
      then (case body number_of_call_r st of
              Inl e \<Rightarrow> Some (Inl e)
            | Inr st' \<Rightarrow> while_remaining body step (number_of_call_r - step) st')
      else Some (Inr st))"

declare while_remaining.simps [code]

text \<open>\<^verbatim>\<open>x0\<close> and \<^verbatim>\<open>y0\<close>: one entry per trial, \<^verbatim>\<open>None\<close> everywhere by default.\<close>

definition x0_of :: "args \<Rightarrow> point list option list" where
  "x0_of A = (if X0 A = [None] then replicate (nat (different_iteration A)) None else X0 A)"

definition y0_of :: "args \<Rightarrow> real list option list" where
  "y0_of A = (if Y0 A = [None] then replicate (nat (different_iteration A)) None else Y0 A)"

definition len_x0 :: "point list option \<Rightarrow> int" where
  "len_x0 x0i = (case x0i of None \<Rightarrow> 0 | Some xs \<Rightarrow> int (length xs))"

text \<open>The argument lists of the three kinds of invocation.\<close>

definition dummy_call ::
  "int \<Rightarrow> point list option \<Rightarrow> real list option \<Rightarrow> callback list \<Rightarrow> call" where
  "dummy_call n x0i y0i cb =
     \<lparr>c_routine = dummy_minimize, c_n_calls = n, c_n_random_starts = None,
      c_n_initial_points = None, c_x0 = x0i, c_y0 = y0i, c_callback = cb\<rparr>"

definition forest_call ::
  "int \<Rightarrow> int \<Rightarrow> point list option \<Rightarrow> real list option \<Rightarrow> callback list \<Rightarrow> call" where
  "forest_call n k x0i y0i cb =
     \<lparr>c_routine = forest_minimize, c_n_calls = n, c_n_random_starts = Some k,
      c_n_initial_points = None, c_x0 = x0i, c_y0 = y0i, c_callback = cb\<rparr>"

text \<open>
  \<^verbatim>\<open>if( x0[i] != None and y0[i] != None): opt.tell(x0[i], y0[i], fit=True)\<close>: the optimizer
  is told both or nothing.
\<close>

definition gp_call :: "int \<Rightarrow> int \<Rightarrow> point list option \<Rightarrow> real list option \<Rightarrow> int \<Rightarrow> call" where
  "gp_call k k' x0i y0i n =
     \<lparr>c_routine = gp_minimize, c_n_calls = n, c_n_random_starts = Some k,
      c_n_initial_points = Some k',
      c_x0 = (if x0i \<noteq> None \<and> y0i \<noteq> None then x0i else None),
      c_y0 = (if x0i \<noteq> None \<and> y0i \<noteq> None then y0i else None),
      c_callback = []\<rparr>"

definition stopper :: "args \<Rightarrow> callback" where
  "stopper A = MyCustomEarlyStopper (early_step A) (default_n_random_starts A)"

definition save_name_t :: "args \<Rightarrow> nat \<Rightarrow> string" where
  "save_name_t A i = save_name A @ ''_'' @ str i @ ''.pkl''"

text \<open>\<^verbatim>\<open>res.append( minimizer(...) )\<close> and \<^verbatim>\<open>res[i] = minimizer(...)\<close>.\<close>

definition append_run :: "library \<Rightarrow> objective \<Rightarrow> nat \<Rightarrow> call \<Rightarrow> state \<Rightarrow> error + state" where
  "append_run L f i c st =
     bind_err (run_minimizer L f i None c st)
       (\<lambda>(r, st'). Inr (st'\<lparr>res := res st' @ [r]\<rparr>))"

definition replace_run ::
  "library \<Rightarrow> objective \<Rightarrow> nat \<Rightarrow> result \<Rightarrow> call \<Rightarrow> state \<Rightarrow> error + state" where
  "replace_run L f i partial_res c st =
     bind_err (run_minimizer L f i (Some partial_res) c st)
       (\<lambda>(r, st'). bind_err (set_item (res st') i r) (\<lambda>rs. Inr (st'\<lparr>res := rs\<rparr>)))"

text \<open>
  A first chunk without a checkpoint: the call is built from \<^verbatim>\<open>x0[i]\<close> and \<^verbatim>\<open>y0[i]\<close>.
\<close>

definition first_run ::
  "library \<Rightarrow> objective \<Rightarrow> args \<Rightarrow> (point list option \<Rightarrow> real list option \<Rightarrow> call)
     \<Rightarrow> nat \<Rightarrow> state \<Rightarrow> error + state" where
  "first_run L f A mk i st =
     bind_err (item (x0_of A) i) (\<lambda>x0i.
     bind_err (item (y0_of A) i) (\<lambda>y0i.
       append_run L f i (mk x0i y0i) st))"

text \<open>
  A first chunk with a checkpoint:
  \<^verbatim>\<open>checkpoint_saver[i] = CheckpointSaver( save_name + "_" + str(i) + ".pkl" )\<close>, then the
  call, which gets the saver among its callbacks.
\<close>

definition first_run_saved ::
  "library \<Rightarrow> objective \<Rightarrow> args
     \<Rightarrow> (callback \<Rightarrow> point list option \<Rightarrow> real list option \<Rightarrow> call)
     \<Rightarrow> nat \<Rightarrow> state \<Rightarrow> error + state" where
  "first_run_saved L f A mk i st =
     bind_err (set_item (checkpoint_saver st) i (Some (CheckpointSaver (save_name_t A i))))
       (\<lambda>savers.
     bind_err (item (x0_of A) i) (\<lambda>x0i.
     bind_err (item (y0_of A) i) (\<lambda>y0i.
       append_run L f i (mk (CheckpointSaver (save_name_t A i)) x0i y0i)
         (st\<lparr>checkpoint_saver := savers\<rparr>))))"

text \<open>
  A resumed chunk: \<^verbatim>\<open>partial_res = load( save_name_t )\<close>, the call with the restored
  points and values and with the saver that \<^verbatim>\<open>checkpoint_saver[i]\<close> holds; in a full
  chunk, \<^verbatim>\<open>checkpoint_saver[i]\<close> is then replaced by a saver for the same name after
  \<^verbatim>\<open>"./"\<close>.
\<close>

definition resumed_run ::
  "library \<Rightarrow> objective \<Rightarrow> args \<Rightarrow> bool \<Rightarrow> (result \<Rightarrow> callback \<Rightarrow> call)
     \<Rightarrow> nat \<Rightarrow> state \<Rightarrow> error + state" where
  "resumed_run L f A full mk i st =
     bind_err (load (save_name_t A i) (files st)) (\<lambda>partial_res.
     bind_err (item (checkpoint_saver st) i) (\<lambda>saver.
       case saver of
         None \<Rightarrow> Inl ValueError
       | Some cb \<Rightarrow>
           bind_err (replace_run L f i partial_res (mk partial_res cb) st) (\<lambda>st'.
             if full
             then bind_err
                    (set_item (checkpoint_saver st') i
                       (Some (CheckpointSaver (''./'' @ save_name_t A i))))
                    (\<lambda>savers. Inr (st'\<lparr>checkpoint_saver := savers\<rparr>))
             else Inr st')))"

text \<open>
  Modelled from the spec: \<^verbatim>\<open>tool.dump_BO\<close> and \<^verbatim>\<open>tool.load_BO\<close>
  (optimization/optimizer\_tool.py) are not among the sources. By the specification the
  checkpoint store keeps one file per trial, named by the base name and the trial index,
  with the trial's result; the handle lists the names, and loading gives back the results
  in trial order.
\<close>

definition dump_BO :: "result list \<Rightarrow> string \<Rightarrow> files \<Rightarrow> string list \<times> files" where
  "dump_BO rs name fs =
     (map (\<lambda>i. name @ ''_'' @ str i) [0 ..< length rs],
      fold (\<lambda>i fs'. dump (rs ! i) (name @ ''_'' @ str i) fs') [0 ..< length rs] fs)"

primrec load_BO :: "string list \<Rightarrow> files \<Rightarrow> error + result list" where
  "load_BO [] fs = Inr []"
| "load_BO (p # ps) fs =
     bind_err (load p fs) (\<lambda>r. bind_err (load_BO ps fs) (\<lambda>rs. Inr (r # rs)))"

definition dump_res :: "args \<Rightarrow> state \<Rightarrow> state" where
  "dump_res A st =
     (let (handle, fs) = dump_BO (res st) (save_name A) (files st)
      in st\<lparr>dump_handle := handle, files := fs\<rparr>)"

text \<open>
  The Gaussian-process chunks. A first chunk builds the optimizer with the configured
  number of random starts; a resumed chunk builds it with none and tells it the restored
  points and values. With early stopping, a trial whose flag is set is skipped, and
  \<^verbatim>\<open>tool.early_condition\<close> on the new result may set the flag.
\<close>

definition gp_first ::
  "library \<Rightarrow> objective \<Rightarrow> args \<Rightarrow> int \<Rightarrow> nat \<Rightarrow> state \<Rightarrow> error + state" where
  "gp_first L f A n i st =
     bind_err (item (x0_of A) i) (\<lambda>x0i.
     bind_err (item (y0_of A) i) (\<lambda>y0i.
       append_run L f i (gp_call (n_random_starts A) (n_random_starts A) x0i y0i n) st))"

definition gp_resumed ::
  "library \<Rightarrow> objective \<Rightarrow> result list \<Rightarrow> int \<Rightarrow> nat \<Rightarrow> state \<Rightarrow> error + state" where
  "gp_resumed L f partial_res n i st =
     bind_err (item partial_res i) (\<lambda>p.
       replace_run L f i p (gp_call 0 0 (Some (x_iters p)) (Some (func_vals p)) n) st)"

definition flag_early ::
  "library \<Rightarrow> args \<Rightarrow> nat \<Rightarrow> state \<Rightarrow> error + state" where
  "flag_early L A i st =
     bind_err (item (res st) i) (\<lambda>res_t.
       if early_condition L res_t (early_step A) (n_random_starts A)
       then bind_err (set_item (early_stop_flag st) i True)
              (\<lambda>flags. Inr (st\<lparr>early_stop_flag := flags\<rparr>))
       else Inr st)"

definition gp_first_early ::
  "library \<Rightarrow> objective \<Rightarrow> args \<Rightarrow> int \<Rightarrow> nat \<Rightarrow> state \<Rightarrow> error + state" where
  "gp_first_early L f A n i st =
     bind_err (item (early_stop_flag st) i) (\<lambda>flag.
       if flag = False
       then bind_err (gp_first L f A n i st) (flag_early L A i)
       else Inr st)"

definition gp_resumed_early ::
  "library \<Rightarrow> objective \<Rightarrow> args \<Rightarrow> result list \<Rightarrow> int \<Rightarrow> nat \<Rightarrow> state \<Rightarrow> error + state" where
  "gp_resumed_early L f A partial_res n i st =
     bind_err (item (early_stop_flag st) i) (\<lambda>flag.
       if flag = False
       then bind_err (gp_resumed L f partial_res n i st) (flag_early L A i)
       else Inr st)"

text \<open>The second condition of every strategy: one chunk is enough, with a checkpoint.\<close>

definition single_saved_chunk :: "args \<Rightarrow> bool" where
  "single_saved_chunk A \<longleftrightarrow>
     (save_step A \<ge> number_of_call A \<and> save A)
     \<and> (early_step A \<ge> number_of_call A \<or> \<not> early_stop A)"

definition trials :: "args \<Rightarrow> nat list" where
  "trials A = [0 ..< nat (different_iteration A)]"

text \<open>\<^verbatim>\<open>if( minimizer == dummy_minimize )\<close>\<close>

definition dummy_branch ::
  "library \<Rightarrow> objective \<Rightarrow> args \<Rightarrow> state \<Rightarrow> (error + state) option" where
  "dummy_branch L f A st =
     (if \<not> save A \<and> \<not> early_stop A then
        Some (for_range (trials A)
          (first_run L f A (\<lambda>x0i y0i. dummy_call (number_of_call A) x0i y0i [])) st)
      else if single_saved_chunk A then
        Some (for_range (trials A)
          (first_run_saved L f A
             (\<lambda>saver x0i y0i. dummy_call (number_of_call A) x0i y0i [saver])) st)
      else if save A \<and> \<not> early_stop A then
        (case for_range (trials A)
                (first_run_saved L f A
                   (\<lambda>saver x0i y0i. dummy_call (save_step A) x0i y0i [saver])) st of
           Inl e \<Rightarrow> Some (Inl e)
         | Inr st1 \<Rightarrow>
             while_remaining
               (\<lambda>number_of_call_r.
                  if number_of_call_r \<ge> save_step A then
                    for_range (trials A)
                      (resumed_run L f A True
                         (\<lambda>p saver. dummy_call (save_step A)
                            (Some (x_iters p)) (Some (func_vals p)) [saver]))
                  else
                    for_range (trials A)
                      (resumed_run L f A False
                         (\<lambda>p saver. dummy_call number_of_call_r
                            (Some (x_iters p)) (Some (func_vals p)) [saver])))
               (save_step A) (number_of_call A - save_step A) st1)
      else if \<not> save A \<and> early_stop A then
        Some (for_range (trials A)
          (first_run L f A
             (\<lambda>x0i y0i. dummy_call (number_of_call A) x0i y0i [stopper A])) st)
      else if save A \<and> early_stop A then
        (case for_range (trials A)
                (first_run_saved L f A
                   (\<lambda>saver x0i y0i. dummy_call (save_step A) x0i y0i [saver, stopper A]))
                st of
           Inl e \<Rightarrow> Some (Inl e)
         | Inr st1 \<Rightarrow>
             while_remaining
               (\<lambda>number_of_call_r.
                  if number_of_call_r \<ge> save_step A then
                    for_range (trials A)
                      (resumed_run L f A True
                         (\<lambda>p saver. dummy_call (save_step A)
                            (Some (x_iters p)) (Some (func_vals p)) [saver, stopper A]))
                  else
                    for_range (trials A)
                      (resumed_run L f A False
                         (\<lambda>p saver. dummy_call number_of_call_r
                            (Some (x_iters p)) (Some (func_vals p)) [saver, stopper A])))
               (save_step A) (number_of_call A - save_step A) st1)
      else Some (Inr st))"

text \<open>
  \<^verbatim>\<open>if( minimizer == forest_minimize )\<close>. With a checkpoint, the first chunk is
  \<open>save_step\<close> calls, or \<open>save_step + n_random_starts\<close> when \<open>save_step\<close> is below
  \<open>n_random_starts + len(x0[i])\<close>; the remaining budget is \<open>number_of_call - save_step\<close>
  in both cases.
\<close>

definition forest_first_calls :: "args \<Rightarrow> point list option \<Rightarrow> int" where
  "forest_first_calls A x0i =
     (if save_step A \<ge> n_random_starts A + len_x0 x0i then save_step A
      else save_step A + n_random_starts A)"

definition forest_branch ::
  "library \<Rightarrow> objective \<Rightarrow> args \<Rightarrow> state \<Rightarrow> (error + state) option" where
  "forest_branch L f A st =
     (if \<not> save A \<and> \<not> early_stop A then
        Some (for_range (trials A)
          (first_run L f A
             (\<lambda>x0i y0i. forest_call (number_of_call A) (n_random_starts A) x0i y0i [])) st)
      else if single_saved_chunk A then
        Some (for_range (trials A)
          (first_run_saved L f A
             (\<lambda>saver x0i y0i.
                forest_call (number_of_call A) (n_random_starts A) x0i y0i [saver])) st)
      else if save A \<and> \<not> early_stop A then
        (case for_range (trials A)
                (first_run_saved L f A
                   (\<lambda>saver x0i y0i.
                      forest_call (forest_first_calls A x0i) (n_random_starts A)
                        x0i y0i [saver])) st of
           Inl e \<Rightarrow> Some (Inl e)
         | Inr st1 \<Rightarrow>
             while_remaining
               (\<lambda>number_of_call_r.
                  if number_of_call_r \<ge> save_step A then
                    for_range (trials A)
                      (resumed_run L f A True
                         (\<lambda>p saver. forest_call (save_step A) 0
                            (Some (x_iters p)) (Some (func_vals p)) [saver]))
                  else
                    for_range (trials A)
                      (resumed_run L f A False
                         (\<lambda>p saver. forest_call number_of_call_r 0
                            (Some (x_iters p)) (Some (func_vals p)) [saver])))
               (save_step A) (number_of_call A - save_step A) st1)
      else if \<not> save A \<and> early_stop A then
        Some (for_range (trials A)
          (first_run L f A
             (\<lambda>x0i y0i.
                forest_call (number_of_call A) (n_random_starts A) x0i y0i [stopper A])) st)
      else if save A \<and> early_stop A then
        (case for_range (trials A)
                (first_run_saved L f A
                   (\<lambda>saver x0i y0i.
                      forest_call (forest_first_calls A x0i) (n_random_starts A)
                        x0i y0i [saver, stopper A])) st of
           Inl e \<Rightarrow> Some (Inl e)
         | Inr st1 \<Rightarrow>
             while_remaining
               (\<lambda>number_of_call_r.
                  if number_of_call_r \<ge> save_step A then
                    for_range (trials A)
                      (\<lambda>i st. bind_err (item (x0_of A) i) (\<lambda>x0i.
                         resumed_run L f A True
                           (\<lambda>p saver.
                              forest_call
                                (if save_step A \<ge> len_x0 x0i then save_step A
                                 else save_step A + len_x0 x0i) 0
                                (Some (x_iters p)) (Some (func_vals p)) [saver, stopper A])
                           i st))
                  else
                    for_range (trials A)
                      (\<lambda>i st. bind_err (item (x0_of A) i) (\<lambda>x0i.
                         resumed_run L f A False
                           (\<lambda>p saver.
                              forest_call
                                (if save_step A \<ge> n_random_starts A + len_x0 x0i
                                 then number_of_call_r
                                 else number_of_call_r + len_x0 x0i) 0
                                (Some (x_iters p)) (Some (func_vals p)) [saver, stopper A])
                           i st)))
               (save_step A) (number_of_call A - save_step A) st1)
      else Some (Inr st))"

text \<open>
  \<^verbatim>\<open>if( minimizer == gp_minimize )\<close>. In the branch with early stopping and no
  checkpoint, the remaining budget and the size of a full resumed chunk are computed from
  the flag \<^verbatim>\<open>early_stop\<close>, which counts as 1. The branch with both a checkpoint and early
  stopping calls \<^verbatim>\<open>forest_minimize\<close> for the first chunk and \<^verbatim>\<open>dummy_minimize\<close> for the
  resumed ones.
\<close>

definition gp_branch ::
  "library \<Rightarrow> objective \<Rightarrow> args \<Rightarrow> state \<Rightarrow> (error + state) option" where
  "gp_branch L f A st =
     (if \<not> save A \<and> \<not> early_stop A then
        Some (for_range (trials A) (gp_first L f A (number_of_call A)) st)
      else if single_saved_chunk A then
        Some (bind_err (for_range (trials A) (gp_first L f A (number_of_call A)) st)
                (\<lambda>st1. Inr (dump_res A st1)))
      else if save A \<and> \<not> early_stop A then
        (case bind_err (for_range (trials A) (gp_first L f A (save_step A)) st)
                (\<lambda>st1. Inr (dump_res A st1)) of
           Inl e \<Rightarrow> Some (Inl e)
         | Inr st1 \<Rightarrow>
             while_remaining
               (\<lambda>number_of_call_r st.
                  bind_err (load_BO (dump_handle st) (files st)) (\<lambda>partial_res.
                  bind_err
                    (for_range (trials A)
                       (gp_resumed L f partial_res
                          (if number_of_call_r \<ge> save_step A then save_step A
                           else number_of_call_r)) st)
                    (\<lambda>st'. Inr (dump_res A st'))))
               (save_step A) (number_of_call A - save_step A) st1)
      else if \<not> save A \<and> early_stop A then
        (case bind_err
                (for_range (trials A) (gp_first_early L f A (early_step A))
                   (st\<lparr>early_stop_flag := replicate (nat (different_iteration A)) False\<rparr>))
                (\<lambda>st1. Inr (dump_res A st1)) of
           Inl e \<Rightarrow> Some (Inl e)
         | Inr st1 \<Rightarrow>
             while_remaining
               (\<lambda>number_of_call_r st.
                  bind_err (load_BO (dump_handle st) (files st)) (\<lambda>partial_res.
                  bind_err
                    (for_range (trials A)
                       (gp_resumed_early L f A partial_res
                          (if number_of_call_r \<ge> early_step A then of_bool (early_stop A)
                           else number_of_call_r)) st)
                    (\<lambda>st'. Inr (dump_res A st'))))
               (of_bool (early_stop A)) (number_of_call A - of_bool (early_stop A)) st1)
      else if save A \<and> early_stop A then
        (case for_range (trials A)
                (first_run_saved L f A
                   (\<lambda>saver x0i y0i.
                      forest_call (save_step A) (n_random_starts A) x0i y0i
                        [saver, stopper A])) st of
           Inl e \<Rightarrow> Some (Inl e)
         | Inr st1 \<Rightarrow>
             while_remaining
               (\<lambda>number_of_call_r.
                  if number_of_call_r \<ge> save_step A then
                    for_range (trials A)
                      (resumed_run L f A True
                         (\<lambda>p saver. dummy_call (save_step A)
                            (Some (x_iters p)) (Some (func_vals p)) [saver, stopper A]))
                  else
                    for_range (trials A)
                      (resumed_run L f A False
                         (\<lambda>p saver. dummy_call number_of_call_r
                            (Some (x_iters p)) (Some (func_vals p)) [saver, stopper A])))
               (save_step A) (number_of_call A - save_step A) st1)
      else Some (Inr st))"

text \<open>
  The driver: the two configuration checks, the variables \<^verbatim>\<open>res = []\<close> and
  \<^verbatim>\<open>checkpoint_saver = [None] * different_iteration\<close>, the branch of the chosen
  minimizer, \<^verbatim>\<open>return res\<close>. (The banner it prints before the branch is left out.)
\<close>

definition Bayesian_optimization ::
  "library \<Rightarrow> objective \<Rightarrow> args \<Rightarrow> state \<Rightarrow> (error + outcome \<times> state) option" where
  "Bayesian_optimization L f A st0 =
     (if number_of_call A \<le> 0 then
        Some (Inr (Config_error ''Error: number_of_call can't be <= 0'', st0))
      else if different_iteration A \<le> 2 then
        Some (Inr (Config_error ''Error: different iteration should be 3 or more'', st0))
      else
        (let st = st0\<lparr>res := [],
                      checkpoint_saver := replicate (nat (different_iteration A)) None\<rparr>
         in case (case minimizer A of
                    dummy_minimize \<Rightarrow> dummy_branch L f A st
                  | forest_minimize \<Rightarrow> forest_branch L f A st
                  | gp_minimize \<Rightarrow> gp_branch L f A st) of
              None \<Rightarrow> None
            | Some (Inl e) \<Rightarrow> Some (Inl e)
            | Some (Inr st') \<Rightarrow> Some (Inr (Results (res st'), st'))))"


section \<open>Optimizer.optimize and the module's default parameters\<close>

definition default_parameters :: dict where
  "default_parameters = map_of
     [(''n_calls'', PyInt 100),
      (''different_iteration'', PyInt 10),
      (''n_random_starts'', PyInt 10),
      (''minimizer'', PyMinimizer gp_minimize),
      (''acq_func'', PyStr ''LCB''),
      (''kernel'', PyObject ''kernels[3]''),
      (''random_state'', PyNone),
      (''noise'', PyNone),
      (''verbose'', PyBool False),
      (''n_points'', PyInt 10000),
      (''base_estimator'', PyStr ''RF''),
      (''kappa'', PyFloat 1.96),
      (''alpha'', PyFloat (1 / 10 ^ 10)),
      (''x0'', PyX0 [None]),
      (''y0'', PyY0 [None]),
      (''xi'', PyFloat 1.96),
      (''n_jobs'', PyInt 1),
      (''model_queue_size'', PyNone),
      (''optimization_type'', PyStr ''Maximize''),
      (''extra_metrics'', PyMetrics []),
      (''save'', PyBool False),
      (''save_step'', PyInt 1),
      (''save_name'', PyStr ''partial_result''),
      (''early_stop'', PyBool False),
      (''early_step'', PyInt 10),
      (''plot'', PyBool False),
      (''plot_name'', PyStr ''Bayesian optimization plot''),
      (''log_scale_plot'', PyBool False)]"

text \<open>
  Reading a key: a missing key is a \<^verbatim>\<open>KeyError\<close>. A value of another kind than the
  driver computes with stands for a run that fails on it.
\<close>

definition get_int :: "dict \<Rightarrow> string \<Rightarrow> error + int" where
  "get_int d k =
     (case d k of None \<Rightarrow> Inl (KeyError k) | Some (PyInt n) \<Rightarrow> Inr n | Some _ \<Rightarrow> Inl TypeError)"

definition get_bool :: "dict \<Rightarrow> string \<Rightarrow> error + bool" where
  "get_bool d k =
     (case d k of None \<Rightarrow> Inl (KeyError k) | Some (PyBool b) \<Rightarrow> Inr b | Some _ \<Rightarrow> Inl TypeError)"

definition get_str :: "dict \<Rightarrow> string \<Rightarrow> error + string" where
  "get_str d k =
     (case d k of None \<Rightarrow> Inl (KeyError k) | Some (PyStr w) \<Rightarrow> Inr w | Some _ \<Rightarrow> Inl TypeError)"

definition get_minimizer :: "dict \<Rightarrow> string \<Rightarrow> error + minimizer" where
  "get_minimizer d k =
     (case d k of None \<Rightarrow> Inl (KeyError k) | Some (PyMinimizer m) \<Rightarrow> Inr m
      | Some _ \<Rightarrow> Inl TypeError)"

definition get_x0 :: "dict \<Rightarrow> string \<Rightarrow> error + point list option list" where
  "get_x0 d k =
     (case d k of None \<Rightarrow> Inl (KeyError k) | Some (PyX0 v) \<Rightarrow> Inr v | Some _ \<Rightarrow> Inl TypeError)"

definition get_y0 :: "dict \<Rightarrow> string \<Rightarrow> error + real list option list" where
  "get_y0 d k =
     (case d k of None \<Rightarrow> Inl (KeyError k) | Some (PyY0 v) \<Rightarrow> Inr v | Some _ \<Rightarrow> Inl TypeError)"

definition get_metrics :: "dict \<Rightarrow> string \<Rightarrow> error + metric list" where
  "get_metrics d k =
     (case d k of None \<Rightarrow> Inl (KeyError k) | Some (PyMetrics v) \<Rightarrow> Inr v
      | Some _ \<Rightarrow> Inl TypeError)"

text \<open>\<^verbatim>\<open>default_parameters.update(self.optimization_parameters)\<close>\<close>

definition update_parameters :: "dict \<Rightarrow> optimizer \<Rightarrow> dict" where
  "update_parameters dp self = dp ++ optimization_parameters self"

text \<open>
  The keyword arguments of the call of the driver, each read from the dictionary.
\<close>

definition read_args :: "dict \<Rightarrow> error + args" where
  "read_args dp =
     bind_err (get_minimizer dp ''minimizer'') (\<lambda>m.
     bind_err (get_int dp ''n_calls'') (\<lambda>n.
     bind_err (get_int dp ''different_iteration'') (\<lambda>d.
     bind_err (get_x0 dp ''x0'') (\<lambda>xs.
     bind_err (get_y0 dp ''y0'') (\<lambda>ys.
     bind_err (get_int dp ''n_random_starts'') (\<lambda>k.
     bind_err (get_bool dp ''save'') (\<lambda>sv.
     bind_err (get_int dp ''save_step'') (\<lambda>ss.
     bind_err (get_str dp ''save_name'') (\<lambda>sn.
     bind_err (get_bool dp ''early_stop'') (\<lambda>es.
     bind_err (get_int dp ''early_step'') (\<lambda>est.
       Inr \<lparr>minimizer = m, number_of_call = n, different_iteration = d, X0 = xs, Y0 = ys,
            n_random_starts = k, save = sv, save_step = ss, save_name = sn,
            early_stop = es, early_step = est, default_n_random_starts = k\<rparr>)))))))))))"

text \<open>
  The first statements of \<^verbatim>\<open>optimize\<close>: the parameter labels are the sorted keys of the
  search space; the extra metrics and the direction come from the updated dictionary.
\<close>

definition configure :: "optimizer \<Rightarrow> dict \<Rightarrow> error + optimizer" where
  "configure self dp =
     bind_err (get_metrics dp ''extra_metrics'') (\<lambda>ms.
     bind_err (get_str dp ''optimization_type'') (\<lambda>t.
       Inr (self\<lparr>hyperparameters := sort (map fst (search_space self)),
                 extra_metrics := ms, optimization_type := t\<rparr>)))"

text \<open>
  \<^verbatim>\<open>optimize_result[i].fun = - optimize_result[i].fun\<close> and the same for every entry of
  \<^verbatim>\<open>func_vals\<close>.
\<close>

definition sign_correct :: "result \<Rightarrow> result" where
  "sign_correct r = r\<lparr>res_fun := - res_fun r, func_vals := map uminus (func_vals r)\<rparr>"

text \<open>
  The value the driver hands back to \<^verbatim>\<open>optimize\<close>: the list of results, or \<^verbatim>\<open>None\<close>
  after a configuration error.
\<close>

definition returned :: "outcome \<Rightarrow> result list option" where
  "returned out = (case out of Config_error msg \<Rightarrow> None | Results rs \<Rightarrow> Some rs)"

text \<open>
  \<^verbatim>\<open>if self.optimization_type == 'Maximize': for i in range(len(optimize_result)): ...\<close>:
  \<^verbatim>\<open>len(None)\<close> raises a \<^verbatim>\<open>TypeError\<close>; in any other direction the value is passed on as
  it is.
\<close>

definition restore_sign :: "string \<Rightarrow> result list option \<Rightarrow> error + result list option" where
  "restore_sign direction optimize_result =
     (if direction = ''Maximize''
      then (case optimize_result of
              None \<Rightarrow> Inl TypeError
            | Some rs \<Rightarrow> Inr (Some (map sign_correct rs)))
      else Inr optimize_result)"

text \<open>
  Modelled from the spec: \<^verbatim>\<open>tool.print_func_vals\<close> (optimization/optimizer\_tool.py) is not
  among the sources. It prints the function values of the per-trial results and changes
  nothing; by the specification a configuration error ends the run without a report, so
  on \<^verbatim>\<open>None\<close>, which has no trials to go through, it raises.
\<close>

definition print_func_vals :: "result list option \<Rightarrow> error + unit" where
  "print_func_vals optimize_result =
     (case optimize_result of None \<Rightarrow> Inl TypeError | Some rs \<Rightarrow> Inr ())"

text \<open>
  Modelled from the spec: the class \<^verbatim>\<open>Best_evaluation\<close>
  (optimization/optimization\_result.py) is not among the sources. By the specification
  the report exposes the hyperparameter names, the per-trial results and the iteration
  log; here it holds the four arguments of its constructor, and there is no report
  without a list of results.
\<close>

record best_evaluation =
  params_names :: "string list"
  optimized_result :: "result list"
  iters :: "iteration list"
  optimized_metric :: string

definition Best_evaluation ::
  "string list \<Rightarrow> result list option \<Rightarrow> iteration list \<Rightarrow> string \<Rightarrow> error + best_evaluation" where
  "Best_evaluation names optimize_result its metric_name =
     (case optimize_result of
        None \<Rightarrow> Inl TypeError
      | Some rs \<Rightarrow>
          Inr \<lparr>params_names = names, optimized_result = rs, iters = its,
               optimized_metric = metric_name\<rparr>)"

definition initial_state :: "files \<Rightarrow> state" where
  "initial_state fs =
     \<lparr>files = fs, iterations = [], res = [], checkpoint_saver = [], dump_handle = [],
      early_stop_flag = [], calls = []\<rparr>"

text \<open>
  \<^verbatim>\<open>optimize\<close>, with the module's dictionary before and after: the dictionary is
  updated, the instance configured, the driver called with the values of the dictionary,
  the signs restored, the values printed and the report built. An exception at any step
  ends the call, with the dictionary updated.
\<close>

definition optimize ::
  "library \<Rightarrow> optimizer \<Rightarrow> dict \<Rightarrow> files \<Rightarrow> ((error + best_evaluation) \<times> dict) option" where
  "optimize L self dp0 fs =
     (let dp = update_parameters dp0 self in
      case configure self dp of
        Inl e \<Rightarrow> Some (Inl e, dp)
      | Inr self' \<Rightarrow>
     (case read_args dp of
        Inl e \<Rightarrow> Some (Inl e, dp)
      | Inr A \<Rightarrow>
     (case Bayesian_optimization L (objective_function self') A (initial_state fs) of
        None \<Rightarrow> None
      | Some (Inl e) \<Rightarrow> Some (Inl e, dp)
      | Some (Inr (out, st)) \<Rightarrow>
          Some (bind_err (restore_sign (optimization_type self') (returned out))
                  (\<lambda>optimize_result.
                bind_err (print_func_vals optimize_result) (\<lambda>_.
                  Best_evaluation (hyperparameters self') optimize_result (iterations st)
                    (class_name (metric self')))), dp))))"


section \<open>Lemmas about the minimizers and the loops\<close>

lemma bind_err_simps [simp]:
  "bind_err (Inl e) k = Inl e"
  "bind_err (Inr v) k = k v"
  by (simp_all add: bind_err_def)

lemma bind_err_Inr_iff: "bind_err m k = Inr y \<longleftrightarrow> (\<exists>v. m = Inr v \<and> k v = Inr y)"
  by (cases m) simp_all

lemma item_Inr_iff: "item xs i = Inr v \<longleftrightarrow> i < length xs \<and> v = xs ! i"
  by (auto simp: item_def)

lemma set_item_Inr_iff: "set_item xs i v = Inr ys \<longleftrightarrow> i < length xs \<and> ys = xs[i := v]"
  by (auto simp: set_item_def)

text \<open>What a run of a minimizer leaves alone in the state.\<close>

definition same_frame :: "state \<Rightarrow> state \<Rightarrow> bool" where
  "same_frame st st' \<longleftrightarrow>
     calls st' = calls st \<and> res st' = res st \<and> checkpoint_saver st' = checkpoint_saver st
     \<and> dump_handle st' = dump_handle st \<and> early_stop_flag st' = early_stop_flag st"

lemma same_frame_refl [simp]: "same_frame st st"
  by (simp add: same_frame_def)

lemma same_frame_trans: "same_frame a b \<Longrightarrow> same_frame b c \<Longrightarrow> same_frame a c"
  by (simp add: same_frame_def)

lemma create_result_Inr:
  "create_result Xi yi = Inr r \<Longrightarrow>
     x_iters r = Xi \<and> func_vals r = yi \<and> yi \<noteq> [] \<and> length Xi = length yi
     \<and> res_fun r = yi ! argmin yi"
  by (auto simp: create_result_def split: if_splits)

lemma minimize_loop_frame:
  "minimize_loop L f c n Xi yi st = Inr (r, st') \<Longrightarrow> same_frame st st'"
proof (induction n arbitrary: Xi yi st)
  case 0
  then show ?case by (auto split: sum.splits)
next
  case (Suc n)
  from Suc.prems show ?case
    by (auto simp: Let_def same_frame_def split: sum.splits prod.splits if_splits
        dest!: Suc.IH)
qed

lemma minimize_loop_history:
  "minimize_loop L f c n Xi yi st = Inr (r, st') \<Longrightarrow>
     \<exists>xs ys. x_iters r = Xi @ xs \<and> func_vals r = yi @ ys \<and> length xs = length ys
       \<and> length xs \<le> n \<and> create_result (x_iters r) (func_vals r) = Inr r"
proof (induction n arbitrary: Xi yi st)
  case 0
  then have cr: "create_result Xi yi = Inr r" by (auto split: sum.splits)
  from create_result_Inr [OF cr] cr show ?case by simp
next
  case (Suc n)
  from Suc.prems obtain next_y its r1 fs stop where
    ev: "f (ask L c Xi yi) (iterations st) = Inr (next_y, its)"
    and cr: "create_result (Xi @ [ask L c Xi yi]) (yi @ [next_y]) = Inr r1"
    and cb: "eval_callbacks L (c_callback c) r1 (files st) = (fs, stop)"
    and rest: "if stop then r = r1
               else minimize_loop L f c n (Xi @ [ask L c Xi yi]) (yi @ [next_y])
                      (st\<lparr>iterations := its, files := fs\<rparr>) = Inr (r, st')"
    by (auto simp: Let_def split: sum.splits prod.splits if_splits)
  show ?case
  proof (cases stop)
    case True
    with rest cr show ?thesis
      using create_result_Inr [OF cr]
      by (intro exI [of _ "[ask L c Xi yi]"] exI [of _ "[next_y]"]) simp
  next
    case False
    with rest have "minimize_loop L f c n (Xi @ [ask L c Xi yi]) (yi @ [next_y])
                      (st\<lparr>iterations := its, files := fs\<rparr>) = Inr (r, st')" by simp
    from Suc.IH [OF this] obtain xs ys where
      "x_iters r = (Xi @ [ask L c Xi yi]) @ xs" "func_vals r = (yi @ [next_y]) @ ys"
      "length xs = length ys" "length xs \<le> n"
      "create_result (x_iters r) (func_vals r) = Inr r" by blast
    then show ?thesis
      by (intro exI [of _ "ask L c Xi yi # xs"] exI [of _ "next_y # ys"]) simp
  qed
qed

text \<open>Callbacks that never stop a run: checkpoint savers only.\<close>

definition no_stopper :: "callback list \<Rightarrow> bool" where
  "no_stopper cbs \<longleftrightarrow> list_all (\<lambda>cb. case cb of CheckpointSaver p \<Rightarrow> True | MyCustomEarlyStopper n k \<Rightarrow> False) cbs"

lemma eval_callbacks_no_stopper:
  "no_stopper cbs \<Longrightarrow> snd (eval_callbacks L cbs r fs) = False"
  by (induction L cbs r fs rule: eval_callbacks.induct) (auto simp: no_stopper_def)

lemma minimize_loop_full:
  "minimize_loop L f c n Xi yi st = Inr (r, st') \<Longrightarrow> no_stopper (c_callback c) \<Longrightarrow>
     length Xi = length yi \<Longrightarrow>
     length (x_iters r) = length Xi + n \<and> length (func_vals r) = length yi + n"
proof (induction n arbitrary: Xi yi st)
  case 0
  then show ?case by (auto split: sum.splits dest: create_result_Inr)
next
  case (Suc n)
  from Suc.prems(1) obtain next_y its r1 fs stop where
    cb: "eval_callbacks L (c_callback c) r1 (files st) = (fs, stop)"
    and rest: "if stop then r = r1
               else minimize_loop L f c n (Xi @ [ask L c Xi yi]) (yi @ [next_y])
                      (st\<lparr>iterations := its, files := fs\<rparr>) = Inr (r, st')"
    by (auto simp: Let_def split: sum.splits prod.splits if_splits)
  from cb eval_callbacks_no_stopper [OF Suc.prems(2), of L r1 "files st"]
  have "\<not> stop" by simp
  with rest have "minimize_loop L f c n (Xi @ [ask L c Xi yi]) (yi @ [next_y])
                      (st\<lparr>iterations := its, files := fs\<rparr>) = Inr (r, st')" by simp
  from Suc.IH [OF this Suc.prems(2)] Suc.prems(3) show ?case by simp
qed


lemma base_minimize_frame:
  "base_minimize L f c k st = Inr (r, st') \<Longrightarrow> same_frame st st'"
  by (auto simp: base_minimize_def Let_def same_frame_def
      split: if_splits sum.splits option.splits prod.splits
      dest!: minimize_loop_frame)

lemma base_minimize_wf:
  "base_minimize L f c k st = Inr (r, st') \<Longrightarrow> create_result (x_iters r) (func_vals r) = Inr r"
  by (auto simp: base_minimize_def Let_def
      split: if_splits sum.splits option.splits prod.splits
      dest: minimize_loop_history create_result_Inr)

lemma run_gp_optimizer_frame:
  "run_gp_optimizer L f c st = Inr (r, st') \<Longrightarrow> same_frame st st'"
  by (auto simp: run_gp_optimizer_def split: if_splits option.splits dest!: minimize_loop_frame)

lemma run_gp_optimizer_wf:
  "run_gp_optimizer L f c st = Inr (r, st') \<Longrightarrow> create_result (x_iters r) (func_vals r) = Inr r"
  by (auto simp: run_gp_optimizer_def split: if_splits option.splits dest: minimize_loop_history)

text \<open>A result as the library builds it from a history.\<close>

definition wf_result :: "result \<Rightarrow> bool" where
  "wf_result r \<longleftrightarrow> create_result (x_iters r) (func_vals r) = Inr r"

lemma run_minimizer_effect:
  assumes "run_minimizer L f i restored c st = Inr (r, st')"
  shows "calls st' = calls st @ [(i, restored, c)] \<and> res st' = res st
         \<and> checkpoint_saver st' = checkpoint_saver st \<and> dump_handle st' = dump_handle st
         \<and> early_stop_flag st' = early_stop_flag st \<and> wf_result r"
proof -
  let ?st1 = "st\<lparr>calls := calls st @ [(i, restored, c)]\<rparr>"
  have "same_frame ?st1 st' \<and> wf_result r"
  proof (cases "c_routine c")
    case dummy_minimize
    with assms have "run_dummy_minimize L f c ?st1 = Inr (r, st')"
      by (simp add: run_minimizer_def)
    then show ?thesis
      unfolding run_dummy_minimize_def wf_result_def
      using base_minimize_frame base_minimize_wf by blast
  next
    case forest_minimize
    with assms have "run_forest_minimize L f c ?st1 = Inr (r, st')"
      by (simp add: run_minimizer_def)
    then show ?thesis
      unfolding run_forest_minimize_def wf_result_def
      using base_minimize_frame base_minimize_wf by (auto split: option.splits)
  next
    case gp_minimize
    with assms have "run_gp_optimizer L f c ?st1 = Inr (r, st')"
      by (simp add: run_minimizer_def)
    then show ?thesis
      unfolding wf_result_def
      using run_gp_optimizer_frame run_gp_optimizer_wf by blast
  qed
  then show ?thesis by (simp add: same_frame_def)
qed

text \<open>One chunk for trial \<open>i\<close>: one more invocation, and its result in \<open>res\<close>.\<close>

definition appended :: "nat \<Rightarrow> result option \<Rightarrow> call \<Rightarrow> state \<Rightarrow> state \<Rightarrow> bool" where
  "appended i p c st st' \<longleftrightarrow>
     calls st' = calls st @ [(i, p, c)]
     \<and> dump_handle st' = dump_handle st \<and> early_stop_flag st' = early_stop_flag st
     \<and> length (checkpoint_saver st') = length (checkpoint_saver st)
     \<and> (\<exists>r. wf_result r \<and> (res st' = res st @ [r] \<or> (i < length (res st) \<and> res st' = (res st)[i := r])))"

lemma append_run_effect:
  "append_run L f i c st = Inr st' \<Longrightarrow> appended i None c st st'"
  by (auto simp: append_run_def appended_def bind_err_Inr_iff dest!: run_minimizer_effect)

lemma replace_run_effect:
  "replace_run L f i p c st = Inr st' \<Longrightarrow> appended i (Some p) c st st'"
  by (auto simp: replace_run_def appended_def bind_err_Inr_iff set_item_Inr_iff
      dest!: run_minimizer_effect)

lemma first_run_effect:
  "first_run L f A mk i st = Inr st' \<Longrightarrow>
     i < length (x0_of A) \<and> i < length (y0_of A)
     \<and> appended i None (mk (x0_of A ! i) (y0_of A ! i)) st st'"
  by (auto simp: first_run_def bind_err_Inr_iff item_Inr_iff dest!: append_run_effect)

lemma appended_saver:
  "appended i p c (st\<lparr>checkpoint_saver := s\<rparr>) st' \<Longrightarrow> length s = length (checkpoint_saver st)
     \<Longrightarrow> appended i p c st st'"
  by (auto simp: appended_def)

lemma first_run_saved_effect:
  "first_run_saved L f A mk i st = Inr st' \<Longrightarrow>
     i < length (x0_of A) \<and> i < length (y0_of A)
     \<and> appended i None (mk (CheckpointSaver (save_name_t A i)) (x0_of A ! i) (y0_of A ! i)) st st'"
  by (auto simp: first_run_saved_def bind_err_Inr_iff item_Inr_iff set_item_Inr_iff
      dest!: append_run_effect intro: appended_saver)

lemma resumed_run_effect:
  "resumed_run L f A full mk i st = Inr st' \<Longrightarrow>
     \<exists>p cb. load (save_name_t A i) (files st) = Inr p \<and> appended i (Some p) (mk p cb) st st'"
  by (auto simp: resumed_run_def bind_err_Inr_iff item_Inr_iff set_item_Inr_iff appended_def
      split: option.splits if_splits dest!: replace_run_effect)

lemma gp_first_effect:
  "gp_first L f A n i st = Inr st' \<Longrightarrow>
     appended i None
       (gp_call (n_random_starts A) (n_random_starts A) (x0_of A ! i) (y0_of A ! i) n) st st'"
  by (auto simp: gp_first_def bind_err_Inr_iff item_Inr_iff dest!: append_run_effect)

lemma gp_resumed_effect:
  "gp_resumed L f partial_res n i st = Inr st' \<Longrightarrow>
     \<exists>p. i < length partial_res \<and> p = partial_res ! i
       \<and> appended i (Some p) (gp_call 0 0 (Some (x_iters p)) (Some (func_vals p)) n) st st'"
  by (auto simp: gp_resumed_def bind_err_Inr_iff item_Inr_iff dest!: replace_run_effect)


text \<open>
  An invariant of the driver: a property of every recorded invocation, and every result
  in \<open>res\<close> built by the library.
\<close>

definition trace_inv :: "(nat \<Rightarrow> result option \<Rightarrow> call \<Rightarrow> bool) \<Rightarrow> state \<Rightarrow> bool" where
  "trace_inv P st \<longleftrightarrow>
     (\<forall>(i, p, c) \<in> set (calls st). P i p c) \<and> (\<forall>r \<in> set (res st). wf_result r)"

lemma appended_inv:
  assumes "appended i p c st st'" "P i p c" "trace_inv P st"
  shows "trace_inv P st'"
proof -
  from assms(1) obtain r where c: "calls st' = calls st @ [(i, p, c)]" and w: "wf_result r"
    and r: "res st' = res st @ [r] \<or> res st' = (res st)[i := r]"
    by (auto simp: appended_def)
  from r have "set (res st') \<subseteq> insert r (set (res st))"
    using set_update_subset_insert [of "res st" i r] by auto
  with w assms(3) have "\<forall>x \<in> set (res st'). wf_result x"
    by (auto simp: trace_inv_def)
  with c assms(2,3) show ?thesis by (auto simp: trace_inv_def)
qed

lemma for_range_inv:
  assumes "for_range is body st = Inr st'" "I st"
    and "\<And>i st st'. i \<in> set is \<Longrightarrow> I st \<Longrightarrow> body i st = Inr st' \<Longrightarrow> I st'"
  shows "I st'"
  using assms
proof (induction "is" arbitrary: st)
  case Nil
  then show ?case by simp
next
  case (Cons i "is")
  from Cons.prems(1) obtain st1 where b: "body i st = Inr st1"
    and r: "for_range is body st1 = Inr st'"
    by (auto split: sum.splits)
  from Cons.prems(3) [OF _ Cons.prems(2) b] have "I st1" by simp
  show ?case
    by (rule Cons.IH [OF r \<open>I st1\<close>]) (auto intro: Cons.prems(3))
qed

lemma while_remaining_rule:
  assumes ret: "while_remaining body step r st = Some (Inr st')"
    and init: "I r st"
    and step: "\<And>r st st'. 0 < r \<Longrightarrow> I r st \<Longrightarrow> body r st = Inr st' \<Longrightarrow> I (r - step) st'"
  shows "\<exists>r'\<le>0. I r' st'"
proof -
  have "(\<forall>r st st'. 0 < r \<longrightarrow> I r st \<longrightarrow> body r st = Inr st' \<longrightarrow> I (r - step) st')
        \<longrightarrow> I r st \<longrightarrow> (\<forall>st''. (Inr st' :: error + state) = Inr st'' \<longrightarrow> (\<exists>r'\<le>0. I r' st''))"
  proof (rule while_remaining.raw_induct
      [where P = "\<lambda>b s r st y.
         (\<forall>r st st'. 0 < r \<longrightarrow> I r st \<longrightarrow> b r st = Inr st' \<longrightarrow> I (r - s) st')
         \<longrightarrow> I r st \<longrightarrow> (\<forall>st'. y = Inr st' \<longrightarrow> (\<exists>r'\<le>0. I r' st'))", OF _ ret])
    fix w :: "(int \<Rightarrow> state \<Rightarrow> error + state) \<Rightarrow> int \<Rightarrow> int \<Rightarrow> state \<Rightarrow> (error + state) option"
      and b s r st y
    assume IH: "\<And>b s r st y. w b s r st = Some y \<Longrightarrow>
        (\<forall>r st st'. 0 < r \<longrightarrow> I r st \<longrightarrow> b r st = Inr st' \<longrightarrow> I (r - s) st')
         \<longrightarrow> I r st \<longrightarrow> (\<forall>st'. y = Inr st' \<longrightarrow> (\<exists>r'\<le>0. I r' st'))"
      and eq: "(if 0 < r
         then case b r st of Inl e \<Rightarrow> Some (Inl e) | Inr st' \<Rightarrow> w b s (r - s) st'
         else Some (Inr st)) = Some y"
    show "(\<forall>r st st'. 0 < r \<longrightarrow> I r st \<longrightarrow> b r st = Inr st' \<longrightarrow> I (r - s) st')
         \<longrightarrow> I r st \<longrightarrow> (\<forall>st'. y = Inr st' \<longrightarrow> (\<exists>r'\<le>0. I r' st'))"
    proof (intro impI allI)
      fix st'
      assume b: "\<forall>r st st'. 0 < r \<longrightarrow> I r st \<longrightarrow> b r st = Inr st' \<longrightarrow> I (r - s) st'"
        and i: "I r st" and y: "y = Inr st'"
      show "\<exists>r'\<le>0. I r' st'"
      proof (cases "0 < r")
        case False
        with eq y i show ?thesis by (intro exI [of _ r]) simp
      next
        case True
        with eq y obtain st1 where b1: "b r st = Inr st1"
          and w1: "w b s (r - s) st1 = Some (Inr st')"
          by (auto split: sum.splits)
        from b True i b1 have "I (r - s) st1" by blast
        with IH [OF w1] b show ?thesis by blast
      qed
    qed
  qed
  with init step show ?thesis by blast
qed

lemma while_remaining_inv:
  assumes "while_remaining body step r st = Some (Inr st')" "I st"
    and "\<And>r st st'. I st \<Longrightarrow> body r st = Inr st' \<Longrightarrow> I st'"
  shows "I st'"
  using while_remaining_rule [OF assms(1), where I = "\<lambda>r. I"] assms(2,3) by blast

lemma while_remaining_terminates:
  assumes "0 < step"
  shows "\<exists>y. while_remaining body step r st = Some y"
proof (induction "nat r" arbitrary: r st rule: less_induct)
  case less
  show ?case
  proof (cases "0 < r")
    case False
    then show ?thesis by (subst while_remaining.simps) simp
  next
    case True
    show ?thesis
    proof (cases "body r st")
      case (Inl e)
      with True show ?thesis by (subst while_remaining.simps) simp
    next
      case (Inr st1)
      from True assms have "nat (r - step) < nat r" by simp
      from less [OF this] obtain y where "while_remaining body step (r - step) st1 = Some y"
        by blast
      with True Inr show ?thesis by (subst while_remaining.simps) simp
    qed
  qed
qed


text \<open>
  What holds of every invocation the driver makes: the routine is the configured
  minimizer, but for the Gaussian-process strategy with both a checkpoint and early
  stopping, where it is never the Gaussian-process optimizer; and a resumed invocation
  gets the restored points and values, with no random starts.
\<close>

definition resumed_ok :: "result \<Rightarrow> call \<Rightarrow> bool" where
  "resumed_ok p c \<longleftrightarrow>
     c_x0 c = Some (x_iters p) \<and> c_y0 c = Some (func_vals p)
     \<and> (c_routine c = forest_minimize \<longrightarrow> c_n_random_starts c = Some 0)
     \<and> (c_routine c = gp_minimize \<longrightarrow>
          c_n_random_starts c = Some 0 \<and> c_n_initial_points c = Some 0)"

definition call_ok :: "args \<Rightarrow> nat \<Rightarrow> result option \<Rightarrow> call \<Rightarrow> bool" where
  "call_ok A i p c \<longleftrightarrow>
     (c_routine c = minimizer A
        \<or> (minimizer A = gp_minimize \<and> save A \<and> early_stop A \<and> c_routine c \<noteq> gp_minimize))
     \<and> (case p of None \<Rightarrow> True | Some ck \<Rightarrow> resumed_ok ck c)"

lemma first_run_inv:
  "first_run L f A mk i st = Inr st' \<Longrightarrow> trace_inv P st \<Longrightarrow> (\<And>x y. P i None (mk x y))
     \<Longrightarrow> trace_inv P st'"
  by (blast dest: first_run_effect intro: appended_inv)

lemma first_run_saved_inv:
  "first_run_saved L f A mk i st = Inr st' \<Longrightarrow> trace_inv P st
     \<Longrightarrow> (\<And>s x y. P i None (mk s x y)) \<Longrightarrow> trace_inv P st'"
  by (blast dest: first_run_saved_effect intro: appended_inv)

lemma resumed_run_inv:
  "resumed_run L f A full mk i st = Inr st' \<Longrightarrow> trace_inv P st
     \<Longrightarrow> (\<And>p cb. P i (Some p) (mk p cb)) \<Longrightarrow> trace_inv P st'"
  by (blast dest: resumed_run_effect intro: appended_inv)

lemma gp_first_inv:
  "gp_first L f A n i st = Inr st' \<Longrightarrow> trace_inv P st
     \<Longrightarrow> (\<And>k x y. P i None (gp_call k k x y n)) \<Longrightarrow> trace_inv P st'"
  by (blast dest: gp_first_effect intro: appended_inv)

lemma gp_resumed_inv:
  "gp_resumed L f pr n i st = Inr st' \<Longrightarrow> trace_inv P st
     \<Longrightarrow> (\<And>p. P i (Some p) (gp_call 0 0 (Some (x_iters p)) (Some (func_vals p)) n))
     \<Longrightarrow> trace_inv P st'"
  by (blast dest: gp_resumed_effect intro: appended_inv)

lemma flag_early_inv:
  "flag_early L A i st = Inr st' \<Longrightarrow> trace_inv P st \<Longrightarrow> trace_inv P st'"
  by (auto simp: flag_early_def bind_err_Inr_iff trace_inv_def split: if_splits)

lemma gp_first_early_inv:
  "gp_first_early L f A n i st = Inr st' \<Longrightarrow> trace_inv P st
     \<Longrightarrow> (\<And>k x y. P i None (gp_call k k x y n)) \<Longrightarrow> trace_inv P st'"
  by (auto simp: gp_first_early_def bind_err_Inr_iff split: if_splits
      dest!: gp_first_inv [where P = P] flag_early_inv [where P = P])

lemma gp_resumed_early_inv:
  "gp_resumed_early L f A pr n i st = Inr st' \<Longrightarrow> trace_inv P st
     \<Longrightarrow> (\<And>p. P i (Some p) (gp_call 0 0 (Some (x_iters p)) (Some (func_vals p)) n))
     \<Longrightarrow> trace_inv P st'"
  by (auto simp: gp_resumed_early_def bind_err_Inr_iff split: if_splits
      dest!: gp_resumed_inv [where P = P] flag_early_inv [where P = P])

lemma dump_res_inv [simp]: "trace_inv P (dump_res A st) = trace_inv P st"
  by (simp add: dump_res_def trace_inv_def split: prod.splits)

lemma trace_inv_flags [simp]: "trace_inv P (st\<lparr>early_stop_flag := fl\<rparr>) = trace_inv P st"
  by (simp add: trace_inv_def)

lemma call_ok_simps [simp]:
  "call_ok A i None (dummy_call n x y cb) \<longleftrightarrow>
     minimizer A = dummy_minimize \<or> (minimizer A = gp_minimize \<and> save A \<and> early_stop A)"
  "call_ok A i None (forest_call n k x y cb) \<longleftrightarrow>
     minimizer A = forest_minimize \<or> (minimizer A = gp_minimize \<and> save A \<and> early_stop A)"
  "call_ok A i None (gp_call k k' x y n) \<longleftrightarrow> minimizer A = gp_minimize"
  "call_ok A i (Some p) (dummy_call n (Some (x_iters p)) (Some (func_vals p)) cb) \<longleftrightarrow>
     minimizer A = dummy_minimize \<or> (minimizer A = gp_minimize \<and> save A \<and> early_stop A)"
  "call_ok A i (Some p) (forest_call n 0 (Some (x_iters p)) (Some (func_vals p)) cb) \<longleftrightarrow>
     minimizer A = forest_minimize \<or> (minimizer A = gp_minimize \<and> save A \<and> early_stop A)"
  "call_ok A i (Some p) (gp_call 0 0 (Some (x_iters p)) (Some (func_vals p)) n) \<longleftrightarrow>
     minimizer A = gp_minimize"
  by (auto simp: call_ok_def resumed_ok_def dummy_call_def forest_call_def gp_call_def)

lemma dummy_branch_inv:
  assumes "dummy_branch L f A st = Some (Inr st')" "trace_inv (call_ok A) st"
    "minimizer A = dummy_minimize"
  shows "trace_inv (call_ok A) st'"
  using assms
  by (auto simp: dummy_branch_def split: if_splits sum.splits
      elim!: for_range_inv while_remaining_inv
      dest!: first_run_inv [where P = "call_ok A"]
        first_run_saved_inv [where P = "call_ok A"]
        resumed_run_inv [where P = "call_ok A"])


lemma forest_branch_inv:
  assumes "forest_branch L f A st = Some (Inr st')" "trace_inv (call_ok A) st"
    "minimizer A = forest_minimize"
  shows "trace_inv (call_ok A) st'"
  using assms
  by (auto simp: forest_branch_def bind_err_Inr_iff split: if_splits sum.splits
      elim!: for_range_inv while_remaining_inv
      dest!: first_run_inv [where P = "call_ok A"]
        first_run_saved_inv [where P = "call_ok A"]
        resumed_run_inv [where P = "call_ok A"])

lemma gp_branch_inv:
  assumes "gp_branch L f A st = Some (Inr st')" "trace_inv (call_ok A) st"
    "minimizer A = gp_minimize"
  shows "trace_inv (call_ok A) st'"
  using assms
  by (auto simp: gp_branch_def bind_err_Inr_iff split: if_splits sum.splits
      elim!: for_range_inv while_remaining_inv
      dest!: first_run_saved_inv [where P = "call_ok A"]
        resumed_run_inv [where P = "call_ok A"]
        gp_first_inv [where P = "call_ok A"]
        gp_resumed_inv [where P = "call_ok A"]
        gp_first_early_inv [where P = "call_ok A"]
        gp_resumed_early_inv [where P = "call_ok A"])

lemma Bayesian_optimization_inv:
  assumes "Bayesian_optimization L f A st0 = Some (Inr (Results rs, st'))"
    and "\<forall>(i, p, c) \<in> set (calls st0). call_ok A i p c"
  shows "trace_inv (call_ok A) st' \<and> rs = res st'"
proof -
  let ?st = "st0\<lparr>res := [],
     checkpoint_saver := replicate (nat (different_iteration A)) None\<rparr>"
  have init: "trace_inv (call_ok A) ?st"
    using assms(2) by (simp add: trace_inv_def)
  from assms(1) have br: "(case minimizer A of
       dummy_minimize \<Rightarrow> dummy_branch L f A ?st
     | forest_minimize \<Rightarrow> forest_branch L f A ?st
     | gp_minimize \<Rightarrow> gp_branch L f A ?st) = Some (Inr st')" and rs: "rs = res st'"
    by (auto simp: Bayesian_optimization_def Let_def split: if_splits option.splits sum.splits)
  have "trace_inv (call_ok A) st'"
  proof (cases "minimizer A")
    case dummy_minimize
    with br init show ?thesis by (auto intro: dummy_branch_inv)
  next
    case forest_minimize
    with br init show ?thesis by (auto intro: forest_branch_inv)
  next
    case gp_minimize
    with br init show ?thesis by (auto intro: gp_branch_inv)
  qed
  with rs show ?thesis by simp
qed


section \<open>Properties of the coherence metrics\<close>

text \<open>
  The guard of the four metrics: when \<open>topk\<close> exceeds the number of words of the first
  topic, \<open>score\<close> raises \<^verbatim>\<open>Exception('Words in topics are less than topk')\<close>; otherwise
  the computation gets the topics and the unchanged \<open>topk\<close>, and \<open>score\<close> is what the
  computation gives.
\<close>

lemma coherence_guard:
  assumes "topics self = t # ts" "topk self > int (length t)"
  shows "Coherence_score f1 self = Inl (Exception ''Words in topics are less than topk'')"
    and "Coherence_word_embeddings_score f2 m2 self
           = Inl (Exception ''Words in topics are less than topk'')"
    and "Coherence_word_embeddings_pairwise_score f3 m3 self
           = Inl (Exception ''Words in topics are less than topk'')"
    and "Coherence_word_embeddings_centroid_score g4 f4 m4 self
           = Inl (Exception ''Words in topics are less than topk'')"
  using assms
  by (simp_all add: Coherence_score_def Coherence_word_embeddings_score_def
      Coherence_word_embeddings_pairwise_score_def
      Coherence_word_embeddings_centroid_score_def)

lemma coherence_behind_guard:
  assumes "topics self = t # ts" "topk self \<le> int (length t)"
  shows "Coherence_score f1 self = f1 (topics self) (topk self)"
    and "Coherence_word_embeddings_score f2 m2 self
           = Inr (m2 (map (f2 (topk self)) (filter (\<lambda>topic. length topic > 0) (topics self))))"
    and "Coherence_word_embeddings_pairwise_score f3 m3 self
           = bind_err (each_topic (f3 (topk self)) (topics self)) (\<lambda>cs. Inr (m3 cs))"
    and "Coherence_word_embeddings_centroid_score g4 f4 m4 self
           = bind_err (each_topic (centroid_body g4 f4 (topk self)) (topics self))
               (\<lambda>cs. Inr (m4 cs))"
  using assms
  by (simp_all add: Coherence_score_def Coherence_word_embeddings_score_def
      Coherence_word_embeddings_pairwise_score_def
      Coherence_word_embeddings_centroid_score_def)

text \<open>
  C8. The model output has the topics \<^verbatim>\<open>[['a', 'b'], []]\<close> and \<open>topk\<close> is 2, which does
  not exceed the two words of the first topic; the embeddings know every word and every
  numeric step succeeds. The centroid metric passes the guard and raises \<^verbatim>\<open>IndexError\<close>
  at \<^verbatim>\<open>topic[0]\<close> of the empty second topic instead of returning a score, while the
  metric \<^verbatim>\<open>Coherence_word_embeddings\<close>, which skips empty topics, returns one.
\<close>

theorem centroid_score_raises_on_empty_topic:
  "Coherence_word_embeddings_centroid_score (\<lambda>w. Inr [1, 2]) (\<lambda>k v topic. Inr 0)
       (\<lambda>cs. 0) \<lparr>topics = [[''a'', ''b''], []], topk = 2\<rparr>
     = Inl IndexError
   \<and> Coherence_word_embeddings_score (\<lambda>k topic. 1) (\<lambda>cs. real (length cs))
       \<lparr>topics = [[''a'', ''b''], []], topk = 2\<rparr>
     = Inr 1"
  by (simp add: Coherence_word_embeddings_centroid_score_def centroid_body_def
      Coherence_word_embeddings_score_def bind_err_def)


section \<open>Properties of the objective function\<close>

text \<open>
  What the claim about metric names says of one key: \<open>key\<close> is new among the \<open>earlier\<close>
  keys; it is the class name \<open>base\<close> itself when that is new, and otherwise \<open>base\<close>
  followed by a blank and the least counter from 2 on that gives a new key.
\<close>

definition disambiguated :: "string \<Rightarrow> string set \<Rightarrow> string \<Rightarrow> bool" where
  "disambiguated base earlier key \<longleftrightarrow>
     key \<notin> earlier \<and>
     (if base \<notin> earlier then key = base
      else \<exists>n\<ge>2. key = base @ '' '' @ str n \<and>
             (\<forall>j. 2 \<le> j \<and> j < n \<longrightarrow> base @ '' '' @ str j \<in> earlier))"

lemma name_loop_least:
  assumes "name = base @ '' '' @ str i"
  shows "\<exists>n\<ge>i. name_loop base mv i name = base @ '' '' @ str n
           \<and> base @ '' '' @ str n \<notin> fst ` set mv
           \<and> (\<forall>j. i \<le> j \<and> j < n \<longrightarrow> base @ '' '' @ str j \<in> fst ` set mv)"
  using assms
proof (induction base mv i name rule: name_loop.induct)
  case (1 base mv i name)
  show ?case
  proof (cases "name \<in> fst ` set mv")
    case True
    from "1.IH" [OF True refl] obtain n where n: "i + 1 \<le> n"
      "name_loop base mv (i + 1) (base @ '' '' @ str (i + 1)) = base @ '' '' @ str n"
      "base @ '' '' @ str n \<notin> fst ` set mv"
      "\<forall>j. i + 1 \<le> j \<and> j < n \<longrightarrow> base @ '' '' @ str j \<in> fst ` set mv"
      by blast
    have run: "name_loop base mv i name = base @ '' '' @ str n"
      using True n(2) by (subst name_loop.simps) simp
    have "base @ '' '' @ str j \<in> fst ` set mv" if "i \<le> j" "j < n" for j
    proof (cases "j = i")
      case True
      with \<open>name \<in> fst ` set mv\<close> "1.prems" show ?thesis by simp
    next
      case False
      with that have "i + 1 \<le> j" by simp
      with n(4) that show ?thesis by blast
    qed
    with run n(1) n(3) show ?thesis
      by (intro exI [of _ n]) simp
  next
    case False
    then have "name_loop base mv i name = name"
      by (subst name_loop.simps) simp
    with False "1.prems" show ?thesis
      by (intro exI [of _ i]) auto
  qed
qed

lemma str_2: "str 2 = ''2''"
  by (simp add: str.simps digit_def)

lemma update_fresh: "k \<notin> fst ` set al \<Longrightarrow> AList.update k v al = al @ [(k, v)]"
  by (induction al) auto

lemma chosen_name_disambiguated:
  "disambiguated base (fst ` set mv)
     (if base \<notin> fst ` set mv then base
      else name_loop base mv 2 (base @ '' 2''))"
proof (cases "base \<in> fst ` set mv")
  case False
  then show ?thesis by (simp add: disambiguated_def)
next
  case True
  have "base @ '' 2'' = base @ '' '' @ str 2" by (simp add: str_2)
  from name_loop_least [OF this, of mv] obtain n where n: "2 \<le> n"
    "name_loop base mv 2 (base @ '' 2'') = base @ '' '' @ str n"
    "base @ '' '' @ str n \<notin> fst ` set mv"
    "\<forall>j. 2 \<le> j \<and> j < n \<longrightarrow> base @ '' '' @ str j \<in> fst ` set mv"
    by blast
  have "\<exists>m\<ge>2. name_loop base mv 2 (base @ '' 2'') = base @ '' '' @ str m \<and>
      (\<forall>j. 2 \<le> j \<and> j < m \<longrightarrow> base @ '' '' @ str j \<in> fst ` set mv)"
    using n(1) n(2) n(4) by blast
  moreover have "name_loop base mv 2 (base @ '' 2'') \<notin> fst ` set mv"
    using n(2) n(3) by simp
  ultimately show ?thesis
    unfolding disambiguated_def using True by simp
qed

lemma distinct_if_fresh:
  assumes "\<And>k. k < length xs \<Longrightarrow> xs ! k \<notin> set (take k xs)"
  shows "distinct xs"
proof -
  have aux: "xs ! a \<noteq> xs ! b" if "a < b" "b < length xs" for a b
  proof -
    have "xs ! a \<in> set (take b xs)"
      using that by (auto simp: in_set_conv_nth intro!: exI [of _ a])
    with assms [OF that(2)] show ?thesis by metis
  qed
  show ?thesis
    unfolding distinct_conv_nth
  proof (intro allI impI)
    fix i j
    assume "i < length xs" "j < length xs" "i \<noteq> j"
    then consider "i < j" | "j < i" by linarith
    then show "xs ! i \<noteq> xs ! j"
    proof cases
      case 1
      then show ?thesis using \<open>j < length xs\<close> by (rule aux)
    next
      case 2
      then have "xs ! j \<noteq> xs ! i" using \<open>i < length xs\<close> by (rule aux)
      then show ?thesis by simp
    qed
  qed
qed

lemma extra_loop_keys:
  assumes "extra_loop ms mo mv = Inr mv'"
  shows "\<exists>new. mv' = mv @ new \<and> length new = length ms
           \<and> (\<forall>k<length ms. disambiguated (class_name (ms ! k))
                 (fst ` set (mv @ take k new)) (fst (new ! k)))"
  using assms
proof (induction ms arbitrary: mv)
  case Nil
  then show ?case by simp
next
  case (Cons m rest)
  define name where "name = (if class_name m \<notin> fst ` set mv then class_name m
      else name_loop (class_name m) mv 2 (class_name m @ '' 2''))"
  have dis: "disambiguated (class_name m) (fst ` set mv) name"
    unfolding name_def by (rule chosen_name_disambiguated)
  then have fresh: "name \<notin> fst ` set mv" by (simp add: disambiguated_def)
  from Cons.prems obtain v where v: "score m mo = Inr v"
    and rest: "extra_loop rest mo (AList.update name v mv) = Inr mv'"
    by (auto simp: name_def Let_def split: sum.splits)
  from rest fresh have "extra_loop rest mo (mv @ [(name, v)]) = Inr mv'"
    by (simp add: update_fresh)
  from Cons.IH [OF this] obtain new where new: "mv' = (mv @ [(name, v)]) @ new"
    "length new = length rest"
    "\<forall>k<length rest. disambiguated (class_name (rest ! k))
        (fst ` set ((mv @ [(name, v)]) @ take k new)) (fst (new ! k))"
    by blast
  have "disambiguated (class_name ((m # rest) ! k))
          (fst ` set (mv @ take k ((name, v) # new))) (fst (((name, v) # new) ! k))"
    if "k < length (m # rest)" for k
  proof (cases k)
    case 0
    with dis show ?thesis by simp
  next
    case (Suc k')
    with that new(3) show ?thesis by simp
  qed
  with new(1) new(2) show ?case
    by (intro exI [of _ "(name, v) # new"]) simp
qed

text \<open>
  C9. An evaluation that returns appends exactly one record to the iteration log: the
  hyperparameter vector with the metric values. The values start with the primary
  metric under its class name, followed by one entry per auxiliary metric, in order.
  Every key is different from all keys before it, so nothing is overwritten; an
  auxiliary metric whose class name is already a key gets the class name with the
  suffix \<open>" 2"\<close>, \<open>" 3"\<close>, ... of the first counter that is free.
\<close>

theorem objective_function_metric_names:
  assumes "objective_function self hp its = Inr (r, its')"
  shows "\<exists>result new.
           its' = its @ [(hp, (class_name (metric self), result) # new)]
         \<and> length new = length (extra_metrics self)
         \<and> distinct (class_name (metric self) # map fst new)
         \<and> (\<forall>k<length (extra_metrics self).
               disambiguated (class_name (extra_metrics self ! k))
                 (set (class_name (metric self) # take k (map fst new)))
                 (map fst new ! k))"
proof -
  from assms obtain mo result mv where
    sc: "score (metric self) mo = Inr result"
    and ex: "extra_loop (extra_metrics self) mo [(class_name (metric self), result)] = Inr mv"
    and its': "its' = its @ [(hp, mv)]"
    by (auto simp: objective_function_def split: sum.splits)
  from extra_loop_keys [OF ex] obtain new where new:
    "mv = [(class_name (metric self), result)] @ new"
    "length new = length (extra_metrics self)"
    "\<forall>k<length (extra_metrics self). disambiguated (class_name (extra_metrics self ! k))
        (fst ` set ([(class_name (metric self), result)] @ take k new)) (fst (new ! k))"
    by blast
  have keys: "disambiguated (class_name (extra_metrics self ! k))
                 (set (class_name (metric self) # take k (map fst new)))
                 (map fst new ! k)" if "k < length (extra_metrics self)" for k
    using new(3) new(2) that by (simp add: take_map)
  have fresh: "map fst new ! k \<notin> set (class_name (metric self) # take k (map fst new))"
    if "k < length new" for k
    using keys [of k] that new(2) by (simp add: disambiguated_def)
  have "distinct (class_name (metric self) # map fst new)"
  proof (rule distinct_if_fresh)
    fix k
    assume k: "k < length (class_name (metric self) # map fst new)"
    show "(class_name (metric self) # map fst new) ! k
            \<notin> set (take k (class_name (metric self) # map fst new))"
    proof (cases k)
      case 0
      then show ?thesis by simp
    next
      case (Suc k')
      with k have "k' < length new" by simp
      from fresh [OF this] Suc show ?thesis by simp
    qed
  qed
  with its' new(1) new(2) keys show ?thesis by auto
qed


text \<open>
  An optimizer with two auxiliary metrics of the primary metric's class and one of
  another class.
\<close>

definition example_optimizer :: optimizer where
  "example_optimizer = \<lparr>
     train_model = (\<lambda>params. Inr [[''a'', ''b'']]),
     metric = \<lparr>class_name = ''Coherence'', score = (\<lambda>mo. Inr (1/2))\<rparr>,
     search_space = [(''alpha'', Integer_dim 1 10)],
     optimization_parameters = Map.empty,
     hyperparameters = [''alpha''],
     extra_metrics = [\<lparr>class_name = ''Coherence'', score = (\<lambda>mo. Inr (1/4))\<rparr>,
                      \<lparr>class_name = ''Diversity'', score = (\<lambda>mo. Inr 1)\<rparr>,
                      \<lparr>class_name = ''Coherence'', score = (\<lambda>mo. Inr (1/8))\<rparr>],
     optimization_type = ''Maximize''\<rparr>"

lemma example_run: "objective_function example_optimizer [Int_val 3] [] =
   Inr (- (1/2), [([Int_val 3], [(''Coherence'', 1/2), (''Coherence 2'', 1/4), (''Diversity'', 1), (''Coherence 3'', 1/8)])])"
  by (simp add: objective_function_def example_optimizer_def name_loop.simps str.simps digit_def upt_rec)

theorem objective_function_metric_names_witness:
  "objective_function example_optimizer [Int_val 3] [] =
     Inr (- (1/2), [([Int_val 3], [(''Coherence'', 1/2), (''Coherence 2'', 1/4),
                                    (''Diversity'', 1), (''Coherence 3'', 1/8)])])
   \<and> (\<exists>result new.
         [([Int_val 3], [(''Coherence'', 1/2 :: real), (''Coherence 2'', 1/4),
                         (''Diversity'', 1), (''Coherence 3'', 1/8)])]
           = [] @ [([Int_val 3], (class_name (metric example_optimizer), result) # new)]
       \<and> length new = length (extra_metrics example_optimizer)
       \<and> distinct (class_name (metric example_optimizer) # map fst new)
       \<and> (\<forall>k<length (extra_metrics example_optimizer).
             disambiguated (class_name (extra_metrics example_optimizer ! k))
               (set (class_name (metric example_optimizer) # take k (map fst new)))
               (map fst new ! k)))"
  using objective_function_metric_names [OF example_run] example_run by blast


section \<open>Example runs\<close>

text \<open>
  A library whose strategies ask for the points \<open>[0]\<close>, \<open>[1]\<close>, ... in turn and whose
  early stopping never fires, an objective that is constantly 1, and a configuration
  with three trials and a budget of five.
\<close>

definition sequential_library :: library where
  "sequential_library =
     \<lparr>ask = (\<lambda>c Xi yi. [Int_val (int (length Xi))]),
      early_stopper = (\<lambda>n_stop k r. False),
      early_condition = (\<lambda>r n_stop k. False)\<rparr>"

definition constant_objective :: objective where
  "constant_objective = (\<lambda>p its. Inr (1, its @ [(p, [])]))"

definition example_args :: args where
  "example_args =
     \<lparr>minimizer = dummy_minimize, number_of_call = 5, different_iteration = 3,
      X0 = [None], Y0 = [None], n_random_starts = 3, save = False, save_step = 2,
      save_name = ''partial_result'', early_stop = False, early_step = 2,
      default_n_random_starts = 3\<rparr>"

text \<open>
  A summary of a run: whether it returned results, and of each invocation the trial,
  whether it was resumed, the routine, the number of calls and of random starts.
\<close>

definition summary ::
  "(error + outcome \<times> state) option
     \<Rightarrow> (error + bool \<times> (nat \<times> bool \<times> minimizer \<times> int \<times> int option) list) option" where
  "summary run =
     map_option (map_sum id (\<lambda>(out, st).
       (case out of Results rs \<Rightarrow> True | Config_error msg \<Rightarrow> False,
        map (\<lambda>(i, p, c). (i, (case p of None \<Rightarrow> False | Some ck \<Rightarrow> True), c_routine c, c_n_calls c, c_n_random_starts c))
          (calls st)))) run"

lemma summary_results:
  assumes "summary run = Some (Inr (True, tr))"
  shows "\<exists>rs st. run = Some (Inr (Results rs, st))
       \<and> map (\<lambda>(i, p, c). (i, (case p of None \<Rightarrow> False | Some ck \<Rightarrow> True), c_routine c, c_n_calls c, c_n_random_starts c))
            (calls st) = tr"
proof (cases run)
  case None
  with assms show ?thesis by (simp add: summary_def)
next
  case (Some y)
  show ?thesis
  proof (cases y)
    case (Inl e)
    with Some assms show ?thesis by (simp add: summary_def)
  next
    case (Inr z)
    obtain out st where z: "z = (out, st)" by (cases z)
    show ?thesis
    proof (cases out)
      case (Config_error msg)
      with Some Inr z assms show ?thesis by (simp add: summary_def)
    next
      case (Results rs)
      with Some Inr z assms show ?thesis by (simp add: summary_def)
    qed
  qed
qed

definition forest_save_args :: args where
  "forest_save_args = example_args\<lparr>minimizer := forest_minimize, save := True\<rparr>"

definition gp_save_args :: args where
  "gp_save_args = example_args\<lparr>minimizer := gp_minimize, save := True\<rparr>"

definition gp_save_stop_args :: args where
  "gp_save_stop_args =
     example_args\<lparr>minimizer := gp_minimize, n_random_starts := 2, save := True,
       early_stop := True\<rparr>"

lemma forest_save_run:
  "summary (Bayesian_optimization sequential_library constant_objective
      forest_save_args (initial_state []))
   = Some (Inr (True,
       [(0, False, forest_minimize, 5, Some 3), (1, False, forest_minimize, 5, Some 3),
        (2, False, forest_minimize, 5, Some 3),
        (0, True, forest_minimize, 2, Some 0), (1, True, forest_minimize, 2, Some 0),
        (2, True, forest_minimize, 2, Some 0),
        (0, True, forest_minimize, 1, Some 0), (1, True, forest_minimize, 1, Some 0),
        (2, True, forest_minimize, 1, Some 0)]))"
  by code_simp

lemma gp_save_run:
  "summary (Bayesian_optimization sequential_library constant_objective
      gp_save_args (initial_state []))
   = Some (Inr (True,
       [(0, False, gp_minimize, 2, Some 3), (1, False, gp_minimize, 2, Some 3),
        (2, False, gp_minimize, 2, Some 3),
        (0, True, gp_minimize, 2, Some 0), (1, True, gp_minimize, 2, Some 0),
        (2, True, gp_minimize, 2, Some 0),
        (0, True, gp_minimize, 1, Some 0), (1, True, gp_minimize, 1, Some 0),
        (2, True, gp_minimize, 1, Some 0)]))"
  by code_simp

section \<open>Properties of the driver\<close>

text \<open>
  C2. In a run that returns, every invocation that resumes a trial from a checkpoint
  passes no random starts to the tree-ensemble minimizer, and builds the
  Gaussian-process optimizer with no random starts and no initial points and tells it
  the restored points and values before it runs it (an invocation of the
  Gaussian-process routine is: build, tell, run). With the tree-ensemble strategy every
  resumed invocation is of the tree-ensemble minimizer; with the Gaussian-process
  strategy every resumed invocation is of the Gaussian-process optimizer unless both a
  checkpoint and early stopping are configured.
\<close>

theorem resumed_chunks_have_no_random_starts:
  assumes "Bayesian_optimization L f A st0 = Some (Inr (Results rs, st'))"
    and "calls st0 = []"
  shows "\<forall>(i, p, c) \<in> set (calls st'). \<forall>ck. p = Some ck \<longrightarrow>
           (c_routine c = forest_minimize \<longrightarrow> c_n_random_starts c = Some 0)
         \<and> (c_routine c = gp_minimize \<longrightarrow>
              c_n_random_starts c = Some 0 \<and> c_n_initial_points c = Some 0
              \<and> c_x0 c = Some (x_iters ck) \<and> c_y0 c = Some (func_vals ck))
         \<and> (minimizer A = forest_minimize \<longrightarrow> c_routine c = forest_minimize)
         \<and> (minimizer A = gp_minimize \<and> \<not> (save A \<and> early_stop A)
              \<longrightarrow> c_routine c = gp_minimize)"
proof -
  from assms have "trace_inv (call_ok A) st'"
    using Bayesian_optimization_inv [of L f A st0 rs st'] by simp
  then show ?thesis
    by (auto simp: trace_inv_def call_ok_def resumed_ok_def)
qed


theorem resumed_chunks_have_no_random_starts_witness:
  "(\<exists>rs st'.
     Bayesian_optimization sequential_library constant_objective
       forest_save_args (initial_state []) = Some (Inr (Results rs, st'))
     \<and> calls (initial_state []) = []
     \<and> map (\<lambda>(i, p, c). (i, (case p of None \<Rightarrow> False | Some ck \<Rightarrow> True), c_routine c,
                        c_n_calls c, c_n_random_starts c)) (calls st')
       = [(0, False, forest_minimize, 5, Some 3), (1, False, forest_minimize, 5, Some 3),
          (2, False, forest_minimize, 5, Some 3),
          (0, True, forest_minimize, 2, Some 0), (1, True, forest_minimize, 2, Some 0),
          (2, True, forest_minimize, 2, Some 0),
          (0, True, forest_minimize, 1, Some 0), (1, True, forest_minimize, 1, Some 0),
          (2, True, forest_minimize, 1, Some 0)]
     \<and> (\<forall>(i, p, c) \<in> set (calls st'). \<forall>ck. p = Some ck \<longrightarrow>
           (c_routine c = forest_minimize \<longrightarrow> c_n_random_starts c = Some 0)
         \<and> (c_routine c = gp_minimize \<longrightarrow>
              c_n_random_starts c = Some 0 \<and> c_n_initial_points c = Some 0
              \<and> c_x0 c = Some (x_iters ck) \<and> c_y0 c = Some (func_vals ck))
         \<and> (minimizer forest_save_args = forest_minimize \<longrightarrow> c_routine c = forest_minimize)
         \<and> (minimizer forest_save_args = gp_minimize
             \<and> \<not> (save forest_save_args \<and> early_stop forest_save_args)
              \<longrightarrow> c_routine c = gp_minimize)))
   \<and> (\<exists>rs st'.
     Bayesian_optimization sequential_library constant_objective
       gp_save_args (initial_state []) = Some (Inr (Results rs, st'))
     \<and> map (\<lambda>(i, p, c). (i, (case p of None \<Rightarrow> False | Some ck \<Rightarrow> True), c_routine c,
                        c_n_calls c, c_n_random_starts c)) (calls st')
       = [(0, False, gp_minimize, 2, Some 3), (1, False, gp_minimize, 2, Some 3),
          (2, False, gp_minimize, 2, Some 3),
          (0, True, gp_minimize, 2, Some 0), (1, True, gp_minimize, 2, Some 0),
          (2, True, gp_minimize, 2, Some 0),
          (0, True, gp_minimize, 1, Some 0), (1, True, gp_minimize, 1, Some 0),
          (2, True, gp_minimize, 1, Some 0)]
     \<and> (\<forall>(i, p, c) \<in> set (calls st'). \<forall>ck. p = Some ck \<longrightarrow>
           (c_routine c = forest_minimize \<longrightarrow> c_n_random_starts c = Some 0)
         \<and> (c_routine c = gp_minimize \<longrightarrow>
              c_n_random_starts c = Some 0 \<and> c_n_initial_points c = Some 0
              \<and> c_x0 c = Some (x_iters ck) \<and> c_y0 c = Some (func_vals ck))
         \<and> (minimizer gp_save_args = forest_minimize \<longrightarrow> c_routine c = forest_minimize)
         \<and> (minimizer gp_save_args = gp_minimize
             \<and> \<not> (save gp_save_args \<and> early_stop gp_save_args)
              \<longrightarrow> c_routine c = gp_minimize)))"
proof (rule conjI)
  have init: "calls (initial_state []) = []" by (simp add: initial_state_def)
  from summary_results [OF forest_save_run] obtain rs st' where
    run: "Bayesian_optimization sequential_library constant_objective
       forest_save_args (initial_state []) = Some (Inr (Results rs, st'))"
    and tr: "map (\<lambda>(i, p, c). (i, (case p of None \<Rightarrow> False | Some ck \<Rightarrow> True), c_routine c,
                        c_n_calls c, c_n_random_starts c)) (calls st')
       = [(0, False, forest_minimize, 5, Some 3), (1, False, forest_minimize, 5, Some 3),
          (2, False, forest_minimize, 5, Some 3),
          (0, True, forest_minimize, 2, Some 0), (1, True, forest_minimize, 2, Some 0),
          (2, True, forest_minimize, 2, Some 0),
          (0, True, forest_minimize, 1, Some 0), (1, True, forest_minimize, 1, Some 0),
          (2, True, forest_minimize, 1, Some 0)]"
    by (elim exE conjE)
  note concl = resumed_chunks_have_no_random_starts [OF run init]
  show "\<exists>rs st'.
     Bayesian_optimization sequential_library constant_objective
       forest_save_args (initial_state []) = Some (Inr (Results rs, st'))
     \<and> calls (initial_state []) = []
     \<and> map (\<lambda>(i, p, c). (i, (case p of None \<Rightarrow> False | Some ck \<Rightarrow> True), c_routine c,
                        c_n_calls c, c_n_random_starts c)) (calls st')
       = [(0, False, forest_minimize, 5, Some 3), (1, False, forest_minimize, 5, Some 3),
          (2, False, forest_minimize, 5, Some 3),
          (0, True, forest_minimize, 2, Some 0), (1, True, forest_minimize, 2, Some 0),
          (2, True, forest_minimize, 2, Some 0),
          (0, True, forest_minimize, 1, Some 0), (1, True, forest_minimize, 1, Some 0),
          (2, True, forest_minimize, 1, Some 0)]
     \<and> (\<forall>(i, p, c) \<in> set (calls st'). \<forall>ck. p = Some ck \<longrightarrow>
           (c_routine c = forest_minimize \<longrightarrow> c_n_random_starts c = Some 0)
         \<and> (c_routine c = gp_minimize \<longrightarrow>
              c_n_random_starts c = Some 0 \<and> c_n_initial_points c = Some 0
              \<and> c_x0 c = Some (x_iters ck) \<and> c_y0 c = Some (func_vals ck))
         \<and> (minimizer forest_save_args = forest_minimize \<longrightarrow> c_routine c = forest_minimize)
         \<and> (minimizer forest_save_args = gp_minimize
             \<and> \<not> (save forest_save_args \<and> early_stop forest_save_args)
              \<longrightarrow> c_routine c = gp_minimize))"
    by (rule exI [of _ rs], rule exI [of _ st'], intro conjI) (rule run init tr concl)+
next
  have init: "calls (initial_state []) = []" by (simp add: initial_state_def)
  from summary_results [OF gp_save_run] obtain rs st' where
    run: "Bayesian_optimization sequential_library constant_objective
       gp_save_args (initial_state []) = Some (Inr (Results rs, st'))"
    and tr: "map (\<lambda>(i, p, c). (i, (case p of None \<Rightarrow> False | Some ck \<Rightarrow> True), c_routine c,
                        c_n_calls c, c_n_random_starts c)) (calls st')
       = [(0, False, gp_minimize, 2, Some 3), (1, False, gp_minimize, 2, Some 3),
          (2, False, gp_minimize, 2, Some 3),
          (0, True, gp_minimize, 2, Some 0), (1, True, gp_minimize, 2, Some 0),
          (2, True, gp_minimize, 2, Some 0),
          (0, True, gp_minimize, 1, Some 0), (1, True, gp_minimize, 1, Some 0),
          (2, True, gp_minimize, 1, Some 0)]"
    by (elim exE conjE)
  note concl = resumed_chunks_have_no_random_starts [OF run init]
  show "\<exists>rs st'.
     Bayesian_optimization sequential_library constant_objective
       gp_save_args (initial_state []) = Some (Inr (Results rs, st'))
     \<and> map (\<lambda>(i, p, c). (i, (case p of None \<Rightarrow> False | Some ck \<Rightarrow> True), c_routine c,
                        c_n_calls c, c_n_random_starts c)) (calls st')
       = [(0, False, gp_minimize, 2, Some 3), (1, False, gp_minimize, 2, Some 3),
          (2, False, gp_minimize, 2, Some 3),
          (0, True, gp_minimize, 2, Some 0), (1, True, gp_minimize, 2, Some 0),
          (2, True, gp_minimize, 2, Some 0),
          (0, True, gp_minimize, 1, Some 0), (1, True, gp_minimize, 1, Some 0),
          (2, True, gp_minimize, 1, Some 0)]
     \<and> (\<forall>(i, p, c) \<in> set (calls st'). \<forall>ck. p = Some ck \<longrightarrow>
           (c_routine c = forest_minimize \<longrightarrow> c_n_random_starts c = Some 0)
         \<and> (c_routine c = gp_minimize \<longrightarrow>
              c_n_random_starts c = Some 0 \<and> c_n_initial_points c = Some 0
              \<and> c_x0 c = Some (x_iters ck) \<and> c_y0 c = Some (func_vals ck))
         \<and> (minimizer gp_save_args = forest_minimize \<longrightarrow> c_routine c = forest_minimize)
         \<and> (minimizer gp_save_args = gp_minimize
             \<and> \<not> (save gp_save_args \<and> early_stop gp_save_args)
              \<longrightarrow> c_routine c = gp_minimize))"
    by (rule exI [of _ rs], rule exI [of _ st'], intro conjI) (rule run tr concl)+
qed

text \<open>
  C3. With the Gaussian-process strategy, a checkpoint and early stopping (budget 5,
  chunks of 2, three trials), the first chunk of every trial is run by
  \<^verbatim>\<open>forest_minimize\<close> and every resumed chunk by \<^verbatim>\<open>dummy_minimize\<close>: no chunk is run by the
  Gaussian-process optimizer.
\<close>

theorem gp_save_early_stop_runs_other_minimizers:
  "summary (Bayesian_optimization sequential_library constant_objective
      gp_save_stop_args (initial_state []))
   = Some (Inr (True,
       [(0, False, forest_minimize, 2, Some 2), (1, False, forest_minimize, 2, Some 2),
        (2, False, forest_minimize, 2, Some 2),
        (0, True, dummy_minimize, 2, None), (1, True, dummy_minimize, 2, None),
        (2, True, dummy_minimize, 2, None),
        (0, True, dummy_minimize, 1, None), (1, True, dummy_minimize, 1, None),
        (2, True, dummy_minimize, 1, None)]))"
  by code_simp

text \<open>
  C5. When the budget is zero or negative, or the number of trials is two or less, the
  driver returns at once with a configuration error and the state as it was: no
  minimizer is invoked, no file is written, nothing is logged, and no list of results is
  returned. Every \<^verbatim>\<open>optimize\<close> that reads these arguments from the dictionary then ends
  with an exception and builds no report, whatever the direction.
\<close>

theorem config_error_no_optimization:
  assumes "number_of_call A \<le> 0 \<or> different_iteration A \<le> 2"
  shows "(\<exists>msg. Bayesian_optimization L f A st = Some (Inr (Config_error msg, st)))
       \<and> (\<forall>self dp fs.
            read_args (update_parameters dp self) = Inr A
            \<longrightarrow> (\<exists>e. optimize L self dp fs = Some (Inl e, update_parameters dp self)))"
proof -
  have drv: "\<exists>msg. Bayesian_optimization L f A st = Some (Inr (Config_error msg, st))" for f st
    using assms by (auto simp: Bayesian_optimization_def)
  show ?thesis
  proof (intro conjI allI impI)
    show "\<exists>msg. Bayesian_optimization L f A st = Some (Inr (Config_error msg, st))"
      by (rule drv)
  next
    fix self dp fs
    assume h: "read_args (update_parameters dp self) = Inr A"
    show "\<exists>e. optimize L self dp fs = Some (Inl e, update_parameters dp self)"
    proof (cases "configure self (update_parameters dp self)")
      case (Inl e)
      with h show ?thesis by (simp add: optimize_def)
    next
      case (Inr self')
      from drv [of "objective_function self'" "initial_state fs"] obtain msg where
        "Bayesian_optimization L (objective_function self') A (initial_state fs)
           = Some (Inr (Config_error msg, initial_state fs))" by blast
      with h Inr show ?thesis
        by (simp add: optimize_def returned_def restore_sign_def print_func_vals_def)
    qed
  qed
qed

text \<open>
  A budget of zero in the default direction \<open>Maximize\<close>, and two trials in the direction
  \<open>Minimize\<close>.
\<close>

definition zero_budget_optimizer :: optimizer where
  "zero_budget_optimizer =
     example_optimizer\<lparr>optimization_parameters := [''n_calls'' \<mapsto> PyInt 0]\<rparr>"

definition zero_budget_args :: args where
  "zero_budget_args =
     \<lparr>minimizer = gp_minimize, number_of_call = 0, different_iteration = 10,
      X0 = [None], Y0 = [None], n_random_starts = 10, save = False, save_step = 1,
      save_name = ''partial_result'', early_stop = False, early_step = 10,
      default_n_random_starts = 10\<rparr>"

definition two_trials_optimizer :: optimizer where
  "two_trials_optimizer =
     example_optimizer\<lparr>optimization_parameters :=
       [''different_iteration'' \<mapsto> PyInt 2, ''optimization_type'' \<mapsto> PyStr ''Minimize'']\<rparr>"

definition two_trials_args :: args where
  "two_trials_args =
     \<lparr>minimizer = gp_minimize, number_of_call = 100, different_iteration = 2,
      X0 = [None], Y0 = [None], n_random_starts = 10, save = False, save_step = 1,
      save_name = ''partial_result'', early_stop = False, early_step = 10,
      default_n_random_starts = 10\<rparr>"

lemma zero_budget_read:
  "read_args (update_parameters default_parameters zero_budget_optimizer) = Inr zero_budget_args"
  by (simp add: read_args_def update_parameters_def default_parameters_def
      zero_budget_optimizer_def zero_budget_args_def example_optimizer_def
      get_int_def get_bool_def get_str_def get_minimizer_def get_x0_def get_y0_def map_add_def)

lemma two_trials_read:
  "read_args (update_parameters default_parameters two_trials_optimizer) = Inr two_trials_args"
  by (simp add: read_args_def update_parameters_def default_parameters_def
      two_trials_optimizer_def two_trials_args_def example_optimizer_def
      get_int_def get_bool_def get_str_def get_minimizer_def get_x0_def get_y0_def map_add_def)

lemma two_trials_configure:
  "configure two_trials_optimizer (update_parameters default_parameters two_trials_optimizer)
     = Inr (two_trials_optimizer\<lparr>hyperparameters := [''alpha''], extra_metrics := [],
              optimization_type := ''Minimize''\<rparr>)"
  by (simp add: configure_def update_parameters_def default_parameters_def
      two_trials_optimizer_def example_optimizer_def get_metrics_def get_str_def map_add_def)

theorem config_error_no_optimization_witness:
  "(number_of_call zero_budget_args \<le> 0 \<or> different_iteration zero_budget_args \<le> 2)
   \<and> (\<exists>msg. Bayesian_optimization sequential_library constant_objective zero_budget_args
               (initial_state [])
             = Some (Inr (Config_error msg, initial_state [])))
   \<and> (\<exists>e. optimize sequential_library zero_budget_optimizer default_parameters []
       = Some (Inl e, update_parameters default_parameters zero_budget_optimizer))
   \<and> (number_of_call two_trials_args \<le> 0 \<or> different_iteration two_trials_args \<le> 2)
   \<and> configure two_trials_optimizer (update_parameters default_parameters two_trials_optimizer)
       = Inr (two_trials_optimizer\<lparr>hyperparameters := [''alpha''], extra_metrics := [],
                optimization_type := ''Minimize''\<rparr>)
   \<and> (\<exists>e. optimize sequential_library two_trials_optimizer default_parameters []
       = Some (Inl e, update_parameters default_parameters two_trials_optimizer))"
proof -
  have h: "number_of_call zero_budget_args \<le> 0 \<or> different_iteration zero_budget_args \<le> 2"
    by (simp add: zero_budget_args_def)
  have h2: "number_of_call two_trials_args \<le> 0 \<or> different_iteration two_trials_args \<le> 2"
    by (simp add: two_trials_args_def)
  note t = config_error_no_optimization [OF h, of sequential_library constant_objective
      "initial_state []"]
  note t2 = config_error_no_optimization [OF h2, of sequential_library constant_objective
      "initial_state []"]
  from t have a: "\<exists>msg. Bayesian_optimization sequential_library constant_objective
      zero_budget_args (initial_state []) = Some (Inr (Config_error msg, initial_state []))"
    by (rule conjunct1)
  from t zero_budget_read
  have b: "\<exists>e. optimize sequential_library zero_budget_optimizer default_parameters []
       = Some (Inl e, update_parameters default_parameters zero_budget_optimizer)"
    by blast
  from t2 two_trials_read
  have c: "\<exists>e. optimize sequential_library two_trials_optimizer default_parameters []
       = Some (Inl e, update_parameters default_parameters two_trials_optimizer)"
    by blast
  show ?thesis
    by (intro conjI) (rule h a b h2 two_trials_configure c)+
qed


subsection \<open>Checkpoints\<close>





















section \<open>Properties of optimize\<close>

lemma optimize_dict:
  "optimize L self dp fs = Some (out, dp') \<Longrightarrow> dp' = update_parameters dp self"
  by (auto simp: optimize_def Let_def split: sum.splits option.splits prod.splits)

lemma optimize_report:
  assumes "optimize L self dp fs = Some (Inr rep, dp')"
  shows "\<exists>self' A rs st.
           configure self (update_parameters dp self) = Inr self'
         \<and> read_args (update_parameters dp self) = Inr A
         \<and> Bayesian_optimization L (objective_function self') A (initial_state fs)
             = Some (Inr (Results rs, st))
         \<and> rep = \<lparr>params_names = hyperparameters self',
                   optimized_result =
                     (if optimization_type self' = ''Maximize''
                      then map sign_correct rs else rs),
                   iters = iterations st,
                   optimized_metric = class_name (metric self')\<rparr>"
  using assms
  by (auto simp: optimize_def Let_def bind_err_Inr_iff restore_sign_def returned_def
      print_func_vals_def Best_evaluation_def
      split: sum.splits option.splits outcome.splits prod.splits if_splits)

lemma configure_Inr:
  "configure self dp = Inr self' \<Longrightarrow>
     \<exists>ms t. get_metrics dp ''extra_metrics'' = Inr ms \<and> get_str dp ''optimization_type'' = Inr t
       \<and> self' = self\<lparr>hyperparameters := sort (map fst (search_space self)),
                      extra_metrics := ms, optimization_type := t\<rparr>"
  by (auto simp: configure_def bind_err_Inr_iff)

lemma read_args_Inr:
  "read_args dp = Inr A \<Longrightarrow>
     get_minimizer dp ''minimizer'' = Inr (minimizer A)
     \<and> get_int dp ''n_calls'' = Inr (number_of_call A)
     \<and> get_int dp ''different_iteration'' = Inr (different_iteration A)
     \<and> get_int dp ''n_random_starts'' = Inr (n_random_starts A)
     \<and> get_bool dp ''save'' = Inr (save A)
     \<and> get_int dp ''save_step'' = Inr (save_step A)
     \<and> get_bool dp ''early_stop'' = Inr (early_stop A)
     \<and> get_int dp ''early_step'' = Inr (early_step A)"
  by (auto simp: read_args_def bind_err_Inr_iff)

text \<open>
  C10. \<^verbatim>\<open>optimize\<close> leaves the module's dictionary updated with the instance's
  optimization parameters, whatever the outcome. A second \<^verbatim>\<open>optimize\<close> therefore reads
  every key that the first instance set and the second did not with the first
  instance's value: its dictionary is the defaults, overridden by the first instance's
  parameters, overridden by its own. So for the minimizer, the budget and the direction.
\<close>

theorem parameters_persist_between_runs:
  assumes "optimize L self1 dp fs = Some (out1, dp1)"
  shows "dp1 = dp ++ optimization_parameters self1
       \<and> (\<forall>k v. optimization_parameters self1 k = Some v
                 \<and> optimization_parameters self2 k = None
               \<longrightarrow> update_parameters dp1 self2 k = Some v)
       \<and> (\<forall>fs2 out2 dp2. optimize L self2 dp1 fs2 = Some (out2, dp2)
               \<longrightarrow> dp2 = dp ++ optimization_parameters self1 ++ optimization_parameters self2)
       \<and> (\<forall>fs2 rep2 dp2. optimize L self2 dp1 fs2 = Some (Inr rep2, dp2)
               \<longrightarrow> (\<exists>self2' A2 rs2 st2.
                      configure self2 (update_parameters dp1 self2) = Inr self2'
                    \<and> read_args (update_parameters dp1 self2) = Inr A2
                    \<and> Bayesian_optimization L (objective_function self2') A2 (initial_state fs2)
                        = Some (Inr (Results rs2, st2))
                    \<and> (\<forall>m. optimization_parameters self1 ''minimizer'' = Some (PyMinimizer m)
                            \<and> optimization_parameters self2 ''minimizer'' = None
                          \<longrightarrow> minimizer A2 = m)
                    \<and> (\<forall>n. optimization_parameters self1 ''n_calls'' = Some (PyInt n)
                            \<and> optimization_parameters self2 ''n_calls'' = None
                          \<longrightarrow> number_of_call A2 = n)
                    \<and> (\<forall>t. optimization_parameters self1 ''optimization_type'' = Some (PyStr t)
                            \<and> optimization_parameters self2 ''optimization_type'' = None
                          \<longrightarrow> optimization_type self2' = t)))"
proof -
  have dp1: "dp1 = dp ++ optimization_parameters self1"
    using optimize_dict [OF assms] by (simp add: update_parameters_def)
  have keep: "update_parameters dp1 self2 k = Some v"
    if "optimization_parameters self1 k = Some v" "optimization_parameters self2 k = None"
    for k v
    using that dp1 by (simp add: update_parameters_def map_add_def)
  have second: "dp2 = dp ++ optimization_parameters self1 ++ optimization_parameters self2"
    if "optimize L self2 dp1 fs2 = Some (out2, dp2)" for fs2 out2 dp2
    using optimize_dict [OF that] dp1 by (simp add: update_parameters_def)
  have observed: "\<exists>self2' A2 rs2 st2.
                      configure self2 (update_parameters dp1 self2) = Inr self2'
                    \<and> read_args (update_parameters dp1 self2) = Inr A2
                    \<and> Bayesian_optimization L (objective_function self2') A2 (initial_state fs2)
                        = Some (Inr (Results rs2, st2))
                    \<and> (\<forall>m. optimization_parameters self1 ''minimizer'' = Some (PyMinimizer m)
                            \<and> optimization_parameters self2 ''minimizer'' = None
                          \<longrightarrow> minimizer A2 = m)
                    \<and> (\<forall>n. optimization_parameters self1 ''n_calls'' = Some (PyInt n)
                            \<and> optimization_parameters self2 ''n_calls'' = None
                          \<longrightarrow> number_of_call A2 = n)
                    \<and> (\<forall>t. optimization_parameters self1 ''optimization_type'' = Some (PyStr t)
                            \<and> optimization_parameters self2 ''optimization_type'' = None
                          \<longrightarrow> optimization_type self2' = t)"
    if run2: "optimize L self2 dp1 fs2 = Some (Inr rep2, dp2)" for fs2 rep2 dp2
  proof -
    from optimize_report [OF run2] obtain self2' A2 rs2 st2 where
      c: "configure self2 (update_parameters dp1 self2) = Inr self2'"
      and a: "read_args (update_parameters dp1 self2) = Inr A2"
      and b: "Bayesian_optimization L (objective_function self2') A2 (initial_state fs2)
                        = Some (Inr (Results rs2, st2))"
      by blast
    have m: "minimizer A2 = m"
      if "optimization_parameters self1 ''minimizer'' = Some (PyMinimizer m)"
        "optimization_parameters self2 ''minimizer'' = None" for m
      using read_args_Inr [OF a] keep [OF that] by (simp add: get_minimizer_def)
    have n: "number_of_call A2 = n"
      if "optimization_parameters self1 ''n_calls'' = Some (PyInt n)"
        "optimization_parameters self2 ''n_calls'' = None" for n
      using read_args_Inr [OF a] keep [OF that] by (simp add: get_int_def)
    have t: "optimization_type self2' = t"
      if "optimization_parameters self1 ''optimization_type'' = Some (PyStr t)"
        "optimization_parameters self2 ''optimization_type'' = None" for t
      using configure_Inr [OF c] keep [OF that] by (auto simp: get_str_def)
    from c a b m n t show ?thesis by blast
  qed
  from dp1 keep second observed show ?thesis by blast
qed


text \<open>A summary of a report: the names, and of every trial the values and the best.\<close>

definition report_summary ::
  "((error + best_evaluation) \<times> dict) option
     \<Rightarrow> (string list \<times> (real list \<times> real) list) option" where
  "report_summary run =
     (case run of
        Some (Inr rep, dp) \<Rightarrow>
          Some (params_names rep, map (\<lambda>r. (func_vals r, res_fun r)) (optimized_result rep))
      | _ \<Rightarrow> None)"

lemma report_summary_Some:
  assumes "report_summary run = Some s"
  shows "\<exists>rep dp. run = Some (Inr rep, dp) \<and> params_names rep = fst s
           \<and> map (\<lambda>r. (func_vals r, res_fun r)) (optimized_result rep) = snd s"
  using assms
  by (auto simp: report_summary_def split: option.splits sum.splits prod.splits)

text \<open>
  A first optimizer that sets the minimizer, a budget of one, three trials and the
  direction; the second optimizer sets nothing.
\<close>

definition first_optimizer :: optimizer where
  "first_optimizer =
     example_optimizer\<lparr>optimization_parameters :=
       [''minimizer'' \<mapsto> PyMinimizer dummy_minimize, ''n_calls'' \<mapsto> PyInt 1,
        ''different_iteration'' \<mapsto> PyInt 3, ''optimization_type'' \<mapsto> PyStr ''Minimize'']\<rparr>"

lemma first_run:
  "report_summary (optimize sequential_library first_optimizer default_parameters [])
     = Some ([''alpha''], [([1/2], 1/2), ([1/2], 1/2), ([1/2], 1/2)])"
  by code_simp

lemma second_run:
  "report_summary (optimize sequential_library example_optimizer
      (default_parameters ++ optimization_parameters first_optimizer) [])
     = Some ([''alpha''], [([1/2], 1/2), ([1/2], 1/2), ([1/2], 1/2)])"
  by code_simp

theorem parameters_persist_between_runs_witness:
  "\<exists>out1 dp1 rep2 dp2 self2' A2.
     optimize sequential_library first_optimizer default_parameters [] = Some (out1, dp1)
   \<and> dp1 = default_parameters ++ optimization_parameters first_optimizer
   \<and> optimize sequential_library example_optimizer dp1 [] = Some (Inr rep2, dp2)
   \<and> dp2 = default_parameters ++ optimization_parameters first_optimizer
             ++ optimization_parameters example_optimizer
   \<and> configure example_optimizer (update_parameters dp1 example_optimizer) = Inr self2'
   \<and> read_args (update_parameters dp1 example_optimizer) = Inr A2
   \<and> minimizer A2 = dummy_minimize \<and> number_of_call A2 = 1
   \<and> optimization_type self2' = ''Minimize''
   \<and> map (\<lambda>r. (func_vals r, res_fun r)) (optimized_result rep2)
       = [([1/2], 1/2), ([1/2], 1/2), ([1/2], 1/2)]"
proof -
  from report_summary_Some [OF first_run] obtain rep1 dp1 where
    run1: "optimize sequential_library first_optimizer default_parameters []
             = Some (Inr rep1, dp1)" by blast
  note t = parameters_persist_between_runs [OF run1, of example_optimizer]
  from t have dp1: "dp1 = default_parameters ++ optimization_parameters first_optimizer"
    by blast
  from report_summary_Some [OF second_run] dp1 obtain rep2 dp2 where
    run2: "optimize sequential_library example_optimizer dp1 [] = Some (Inr rep2, dp2)"
    and vals: "map (\<lambda>r. (func_vals r, res_fun r)) (optimized_result rep2)
       = [([1/2], 1/2), ([1/2], 1/2), ([1/2], 1/2)]"
    by auto
  from t run2 have dp2: "dp2 = default_parameters ++ optimization_parameters first_optimizer
             ++ optimization_parameters example_optimizer" by blast
  have p1: "optimization_parameters first_optimizer ''minimizer''
              = Some (PyMinimizer dummy_minimize)"
    "optimization_parameters first_optimizer ''n_calls'' = Some (PyInt 1)"
    "optimization_parameters first_optimizer ''optimization_type'' = Some (PyStr ''Minimize'')"
    by (simp_all add: first_optimizer_def)
  have p2: "optimization_parameters example_optimizer ''minimizer'' = None"
    "optimization_parameters example_optimizer ''n_calls'' = None"
    "optimization_parameters example_optimizer ''optimization_type'' = None"
    by (simp_all add: example_optimizer_def)
  from t run2 obtain self2' A2 where
    c: "configure example_optimizer (update_parameters dp1 example_optimizer) = Inr self2'"
    and a: "read_args (update_parameters dp1 example_optimizer) = Inr A2"
    and m: "\<forall>m. optimization_parameters first_optimizer ''minimizer'' = Some (PyMinimizer m)
              \<and> optimization_parameters example_optimizer ''minimizer'' = None
            \<longrightarrow> minimizer A2 = m"
    and n: "\<forall>n. optimization_parameters first_optimizer ''n_calls'' = Some (PyInt n)
              \<and> optimization_parameters example_optimizer ''n_calls'' = None
            \<longrightarrow> number_of_call A2 = n"
    and ty: "\<forall>t. optimization_parameters first_optimizer ''optimization_type''
                = Some (PyStr t)
              \<and> optimization_parameters example_optimizer ''optimization_type'' = None
            \<longrightarrow> optimization_type self2' = t"
    by blast
  from m p1 p2 have m': "minimizer A2 = dummy_minimize" by blast
  from n p1 p2 have n': "number_of_call A2 = 1" by blast
  from ty p1 p2 have t': "optimization_type self2' = ''Minimize''" by blast
  show ?thesis
    by (rule exI [of _ "Inr rep1"], rule exI [of _ dp1], rule exI [of _ rep2],
        rule exI [of _ dp2], rule exI [of _ self2'], rule exI [of _ A2], intro conjI)
      (rule run1 dp1 run2 dp2 c a m' n' t' vals)+
qed


subsection \<open>The order of the hyperparameters\<close>













subsection \<open>The direction of the optimization\<close>













end
